theory Spec2Isabelle
  imports Complex_Main "HOL-Library.Char_ord" "HOL-Library.List_Lexorder"
begin

section \<open>Configuration loading: \<^verbatim>\<open>init\<close> and \<^verbatim>\<open>getEnvOrDefault\<close>\<close>

text \<open>
  Go strings are byte sequences; they are modelled as \<^typ>\<open>string\<close> (lists of 8-bit
  characters). The process environment is a finite map from variable names to values;
  \<^verbatim>\<open>os.Getenv\<close> returns the empty string for a variable that is not set.
\<close>

type_synonym environ = "string \<rightharpoonup> string"

record Config =
  Port :: string
  Cookie :: string
  RealIP :: string
  Level :: string
  NeteaseMusicAPI :: string

definition Getenv :: "environ \<Rightarrow> string \<Rightarrow> string" where
  "Getenv env key = (case env key of None \<Rightarrow> [] | Some v \<Rightarrow> v)"

text \<open>\<^verbatim>\<open>getEnvOrDefault\<close> (main.go, lines 76-81).\<close>

definition getEnvOrDefault :: "environ \<Rightarrow> string \<Rightarrow> string \<Rightarrow> string" where
  "getEnvOrDefault env key defaultValue =
     (let v = Getenv env key in if v \<noteq> [] then v else defaultValue)"

text \<open>
  \<^verbatim>\<open>godotenv.Load()\<close> (line 58) reads the file \<^verbatim>\<open>.env\<close>. When the file cannot be read
  or parsed it returns an error and leaves the environment alone (\<open>None\<close> below; the
  program only logs a warning). Otherwise it sets every variable of the file that the
  process environment does not already contain; a variable that is present in the
  environment, even with an empty value, is never overwritten.
\<close>

definition godotenv_Load :: "(string \<rightharpoonup> string) option \<Rightarrow> environ \<Rightarrow> environ" where
  "godotenv_Load dotenv env = (case dotenv of None \<Rightarrow> env | Some envMap \<Rightarrow> envMap ++ env)"

text \<open>The struct literal assigned to the global \<^verbatim>\<open>config\<close> (lines 62-68).\<close>

definition loadConfig :: "environ \<Rightarrow> Config" where
  "loadConfig env =
     \<lparr> Port = getEnvOrDefault env ''PORT'' ''8080'',
       Cookie = getEnvOrDefault env ''NETEASE_COOKIE'' [],
       RealIP = getEnvOrDefault env ''REAL_IP'' ''116.25.146.177'',
       Config.Level = getEnvOrDefault env ''LEVEL'' ''exhigh'',
       NeteaseMusicAPI = getEnvOrDefault env ''NETEASE_MUSIC_API'' ''https://example.com'' \<rparr>"

text \<open>
  Lines 62-73: the configuration is resolved, then \<^verbatim>\<open>log.Fatal\<close> ends the process when
  the cookie is empty. \<open>Fatal\<close> carries the logged message.
\<close>

datatype init_result = Fatal string | Ready Config

definition checkConfig :: "environ \<Rightarrow> init_result" where
  "checkConfig env =
     (let config = loadConfig env
      in if Cookie config = []
         then Fatal ''NETEASE_COOKIE is required in environment variables or .env file''
         else Ready config)"

definition init :: "(string \<rightharpoonup> string) option \<Rightarrow> environ \<Rightarrow> init_result" where
  "init dotenv env = checkConfig (godotenv_Load dotenv env)"

text \<open>
  The process: \<^verbatim>\<open>init\<close> runs before \<^verbatim>\<open>main\<close>. After a fatal \<^verbatim>\<open>init\<close> the process has
  exited and \<^verbatim>\<open>main\<close> never runs (\<open>Exited\<close>, with the logged message). Otherwise
  \<^verbatim>\<open>main\<close> registers the routes and calls \<^verbatim>\<open>r.Run(":" + config.Port)\<close> (line 113),
  which binds the listener on that address and serves requests with the loaded
  configuration (\<open>Run\<close>, with the address and the configuration).
\<close>

datatype process = Exited string | Run string Config

definition program :: "(string \<rightharpoonup> string) option \<Rightarrow> environ \<Rightarrow> process" where
  "program dotenv env =
     (case init dotenv env of
        Fatal msg \<Rightarrow> Exited msg
      | Ready config \<Rightarrow> Run (CHR '':'' # Port config) config)"

section \<open>\<^verbatim>\<open>strconv.Atoi\<close> and \<^verbatim>\<open>strconv.Itoa\<close>\<close>

text \<open>
  Go's \<^verbatim>\<open>int\<close> is taken to be 64 bits wide (\<^verbatim>\<open>strconv.IntSize = 64\<close>, as on amd64 and
  arm64). The two functions are library code; they are written out here after the
  library's source: \<^verbatim>\<open>Atoi\<close> has a fast path for strings shorter than 19 bytes and
  otherwise calls \<^verbatim>\<open>ParseInt(s, 10, 0)\<close>, which reads the sign and calls \<^verbatim>\<open>ParseUint\<close>.
\<close>

datatype NumError = ErrSyntax | ErrRange

text \<open>The value of a decimal digit, \<^verbatim>\<open>c - '0'\<close> for \<^verbatim>\<open>'0' <= c && c <= '9'\<close>.\<close>

definition digit_of :: "char \<Rightarrow> int option" where
  "digit_of c = (let n = (of_char c :: int) in if 48 \<le> n \<and> n \<le> 57 then Some (n - 48) else None)"

definition maxUint64 :: int where
  "maxUint64 = 2 ^ 64 - 1"

text \<open>
  The loop of \<^verbatim>\<open>ParseUint\<close> for base 10: a byte that is not a decimal digit is a syntax
  error (underscores are accepted for base 0 only); \<open>n \<ge> cutoff\<close> means that \<open>n * 10\<close>
  overflows, and \<open>n1 > maxVal\<close> that adding the digit does. The accumulator is a
  \<^verbatim>\<open>uint64\<close>; the two checks keep it below \<open>2 ^ 64\<close>, so it is modelled by an
  unbounded integer.
\<close>

fun ParseUint_loop :: "int \<Rightarrow> string \<Rightarrow> NumError + int" where
  "ParseUint_loop n [] = Inr n"
| "ParseUint_loop n (c # cs) =
     (case digit_of c of
        None \<Rightarrow> Inl ErrSyntax
      | Some d \<Rightarrow>
          if n \<ge> maxUint64 div 10 + 1 then Inl ErrRange
          else let n1 = n * 10 + d
               in if n1 > maxUint64 then Inl ErrRange else ParseUint_loop n1 cs)"

definition ParseUint :: "string \<Rightarrow> NumError + int" where
  "ParseUint s = (if s = [] then Inl ErrSyntax else ParseUint_loop 0 s)"

text \<open>
  \<^verbatim>\<open>ParseInt(s, 10, 0)\<close>: the sign is picked off, the rest goes to \<^verbatim>\<open>ParseUint\<close>, and
  the magnitude is checked against \<open>2 ^ 63\<close>. A range error of \<^verbatim>\<open>ParseUint\<close> comes with
  the value \<open>maxUint64\<close>, which that check turns into a range error again.
\<close>

definition ParseInt :: "string \<Rightarrow> NumError + int" where
  "ParseInt s =
     (if s = [] then Inl ErrSyntax
      else let neg = (hd s = CHR ''-'');
               s1 = (if hd s = CHR ''+'' \<or> hd s = CHR ''-'' then tl s else s)
           in case ParseUint s1 of
                Inl ErrSyntax \<Rightarrow> Inl ErrSyntax
              | Inl ErrRange \<Rightarrow> Inl ErrRange
              | Inr un \<Rightarrow>
                  if \<not> neg \<and> un \<ge> 2 ^ 63 then Inl ErrRange
                  else if neg \<and> un > 2 ^ 63 then Inl ErrRange
                  else Inr (if neg then - un else un))"

text \<open>
  The fast path of \<^verbatim>\<open>Atoi\<close>: fewer than 19 bytes cannot overflow 64 bits, so the loop
  has no range check.
\<close>

fun Atoi_loop :: "int \<Rightarrow> string \<Rightarrow> NumError + int" where
  "Atoi_loop n [] = Inr n"
| "Atoi_loop n (ch # cs) =
     (case digit_of ch of
        None \<Rightarrow> Inl ErrSyntax
      | Some d \<Rightarrow> Atoi_loop (n * 10 + d) cs)"

definition Atoi :: "string \<Rightarrow> NumError + int" where
  "Atoi s =
     (if 0 < length s \<and> length s < 19 then
        let s1 = (if hd s = CHR ''-'' \<or> hd s = CHR ''+'' then tl s else s)
        in if length s1 < 1 then Inl ErrSyntax
           else case Atoi_loop 0 s1 of
                  Inl e \<Rightarrow> Inl e
                | Inr n \<Rightarrow> Inr (if hd s = CHR ''-'' then - n else n)
      else ParseInt s)"

text \<open>
  \<^verbatim>\<open>strconv.Itoa(i)\<close> is \<^verbatim>\<open>FormatInt(int64(i), 10)\<close>: the decimal digits of the
  magnitude, most significant first, after a minus sign for a negative number.
  \<open>formatBits\<close> is applied to magnitudes (non-negative numbers) only.
\<close>

definition digit_char :: "int \<Rightarrow> char" where
  "digit_char d = ''0123456789'' ! nat d"

function formatBits :: "int \<Rightarrow> string" where
  "formatBits u = (if u < 10 then [digit_char u] else formatBits (u div 10) @ [digit_char (u mod 10)])"
  by pat_completeness auto
termination
  by (relation "measure nat") auto

declare formatBits.simps [simp del]

definition FormatInt :: "int \<Rightarrow> string" where
  "FormatInt i = (if i < 0 then CHR ''-'' # formatBits (- i) else formatBits i)"

definition Itoa :: "int \<Rightarrow> string" where
  "Itoa i = FormatInt i"

section \<open>Query values: \<^verbatim>\<open>url.Values\<close>, gin's \<^verbatim>\<open>Query\<close> and \<^verbatim>\<open>DefaultQuery\<close>\<close>

text \<open>
  \<^verbatim>\<open>url.Values\<close> is \<^verbatim>\<open>map[string][]string\<close>: an association list with one entry per key,
  holding the key's values in the order they were added. The inbound request is
  represented by the values of its query string (\<^verbatim>\<open>c.Request.URL.Query()\<close>), the only
  part of the request that \<^verbatim>\<open>getSongURL\<close> reads.
\<close>

type_synonym Values = "(string \<times> string list) list"

text \<open>
  gin: \<^verbatim>\<open>GetQuery\<close> returns the first value of the key and whether the key exists;
  \<^verbatim>\<open>Query\<close> returns that value or the empty string, \<^verbatim>\<open>DefaultQuery\<close> that value or the
  given default.
\<close>

definition GetQuery :: "Values \<Rightarrow> string \<Rightarrow> string option" where
  "GetQuery q key = (case map_of q key of Some (v # vs) \<Rightarrow> Some v | _ \<Rightarrow> None)"

definition Query :: "Values \<Rightarrow> string \<Rightarrow> string" where
  "Query q key = (case GetQuery q key of Some v \<Rightarrow> v | None \<Rightarrow> [])"

definition DefaultQuery :: "Values \<Rightarrow> string \<Rightarrow> string \<Rightarrow> string" where
  "DefaultQuery q key defaultValue = (case GetQuery q key of Some v \<Rightarrow> v | None \<Rightarrow> defaultValue)"

text \<open>\<^verbatim>\<open>Values.Add\<close> appends the value to the key's list; \<^verbatim>\<open>Values.Get\<close> reads the first value.\<close>

fun Values_Add :: "Values \<Rightarrow> string \<Rightarrow> string \<Rightarrow> Values" where
  "Values_Add [] key v = [(key, [v])]"
| "Values_Add ((k, vs) # rest) key v =
     (if k = key then (k, vs @ [v]) # rest else (k, vs) # Values_Add rest key v)"

definition Values_Get :: "Values \<Rightarrow> string \<Rightarrow> string" where
  "Values_Get vs key = (case map_of vs key of Some (v # _) \<Rightarrow> v | _ \<Rightarrow> [])"

text \<open>
  \<^verbatim>\<open>url.QueryEscape\<close>: letters, digits and \<^verbatim>\<open>- _ . ~\<close> are kept, a space becomes \<^verbatim>\<open>+\<close>,
  every other byte becomes \<^verbatim>\<open>%XX\<close> with upper-case hexadecimal digits.
\<close>

definition is_alnum :: "char \<Rightarrow> bool" where
  "is_alnum c = (let n = (of_char c :: int)
     in (97 \<le> n \<and> n \<le> 122) \<or> (65 \<le> n \<and> n \<le> 90) \<or> (48 \<le> n \<and> n \<le> 57))"

definition shouldEscape :: "char \<Rightarrow> bool" where
  "shouldEscape c = (if is_alnum c then False else if c \<in> set ''-_.~'' then False else True)"

definition upperhex :: string where
  "upperhex = ''0123456789ABCDEF''"

definition escape_byte :: "char \<Rightarrow> string" where
  "escape_byte c =
     (if c = CHR '' '' then ''+''
      else if shouldEscape c
        then [CHR ''%'', upperhex ! (of_char c div 16), upperhex ! (of_char c mod 16)]
        else [c])"

definition QueryEscape :: "string \<Rightarrow> string" where
  "QueryEscape s = concat (map escape_byte s)"

text \<open>
  \<^verbatim>\<open>Values.Encode\<close>: the keys in sorted (byte-wise lexicographic) order, each value as
  \<^verbatim>\<open>key=value\<close> with both sides escaped, joined by \<^verbatim>\<open>&\<close>.
\<close>

fun join_amp :: "string list \<Rightarrow> string" where
  "join_amp [] = []"
| "join_amp [x] = x"
| "join_amp (x # y # ys) = x @ CHR ''&'' # join_amp (y # ys)"

definition Values_Encode :: "Values \<Rightarrow> string" where
  "Values_Encode v =
     join_amp (concat (map (\<lambda>k. map (\<lambda>x. QueryEscape k @ CHR ''='' # QueryEscape x)
                                     (case map_of v k of Some vs \<Rightarrow> vs | None \<Rightarrow> []))
                           (sort (map fst v))))"

section \<open>JSON documents and \<^verbatim>\<open>encoding/json\<close>\<close>

text \<open>
  The lexical layer of \<^verbatim>\<open>encoding/json\<close> is library code outside the repository. An
  upstream body is therefore represented by what the library's scanner makes of it:
  \<open>Malformed\<close> when it is not one valid JSON text, and otherwise the document's syntax
  tree, with object members in the order of the text (repeated keys included) and
  strings already unquoted.

  A number is kept as its literal: sign, integer part, the digits of the fraction and
  the exponent. \<^verbatim>\<open>1\<close>, \<^verbatim>\<open>1.0\<close> and \<^verbatim>\<open>1e0\<close> are different literals, and the decoder treats
  them differently.
\<close>

datatype number = Number bool int "int list" "int option"

datatype json =
    JNull
  | JBool bool
  | JNumber number
  | JString string
  | JArray "json list"
  | JObject "(string \<times> json) list"

datatype body = Malformed | Document json

text \<open>
  Decoding a number into a Go \<^verbatim>\<open>int\<close> calls \<^verbatim>\<open>strconv.ParseInt(literal, 10, 64)\<close>: a
  literal with a fraction or an exponent is rejected, and so is an integer outside the
  64-bit range.
\<close>

definition number_int64 :: "number \<Rightarrow> int option" where
  "number_int64 n =
     (case n of Number neg w fr ex \<Rightarrow>
        if fr = [] \<and> ex = None
        then (let v = (if neg then - w else w)
              in if - (2 ^ 63) \<le> v \<and> v \<le> 2 ^ 63 - 1 then Some v else None)
        else None)"

text \<open>
  Decoding a number into a \<^verbatim>\<open>float64\<close> calls \<^verbatim>\<open>strconv.ParseFloat(literal, 64)\<close>, which
  fails exactly when the literal rounds to an infinity, that is when its magnitude is
  at least \<open>2 ^ 1024 - 2 ^ 970\<close> (the largest finite double plus half a unit in the last
  place). A \<^verbatim>\<open>float64\<close> value is represented by a literal it is nearest to; the rounding
  itself and Go's formatting of a double are not modelled, and no theorem below depends
  on either.
\<close>

datatype float64 = Nearest number

definition number_overflows :: "number \<Rightarrow> bool" where
  "number_overflows n =
     (case n of Number neg w fr ex \<Rightarrow>
        let m = foldl (\<lambda>a d. a * 10 + d) w fr;
            e = (case ex of None \<Rightarrow> 0 | Some x \<Rightarrow> x) - int (length fr)
        in if 0 \<le> e then 2 ^ 1024 - 2 ^ 970 \<le> m * 10 ^ nat e
           else (2 ^ 1024 - 2 ^ 970) * 10 ^ nat (- e) \<le> m)"

definition number_float64 :: "number \<Rightarrow> float64 option" where
  "number_float64 n = (if number_overflows n then None else Some (Nearest n))"

definition zero_float64 :: float64 where
  "zero_float64 = Nearest (Number False 0 [] None)"

text \<open>
  Values of type \<^verbatim>\<open>interface{}\<close> as the decoder builds them: \<^verbatim>\<open>nil\<close>, \<^verbatim>\<open>bool\<close>,
  \<^verbatim>\<open>float64\<close>, \<^verbatim>\<open>string\<close>, \<^verbatim>\<open>[]interface{}\<close> and \<^verbatim>\<open>map[string]interface{}\<close>. In a map a
  repeated key keeps its last value.
\<close>

datatype iface =
    INil
  | IBool bool
  | IFloat float64
  | IString string
  | ISlice "iface list"
  | IMap "(string \<times> iface) list"

fun map_store :: "(string \<times> 'a) list \<Rightarrow> string \<Rightarrow> 'a \<Rightarrow> (string \<times> 'a) list" where
  "map_store [] key v = [(key, v)]"
| "map_store ((k, x) # rest) key v =
     (if k = key then (k, v) # rest else (k, x) # map_store rest key v)"

fun valueInterface :: "json \<Rightarrow> iface option" where
  "valueInterface JNull = Some INil"
| "valueInterface (JBool b) = Some (IBool b)"
| "valueInterface (JNumber n) = map_option IFloat (number_float64 n)"
| "valueInterface (JString s) = Some (IString s)"
| "valueInterface (JArray xs) = map_option ISlice (those (map valueInterface xs))"
| "valueInterface (JObject ms) =
     map_option (\<lambda>kvs. IMap (foldl (\<lambda>m (k, v). map_store m k v) [] kvs))
       (those (map (\<lambda>(k, v). map_option (Pair k) (valueInterface v)) ms))"

text \<open>The response structs (lines 26-52).\<close>

record SongData =
  ID :: int
  URL :: string
  Br :: int
  Size :: int
  MD5 :: string
  Code :: int
  Expi :: int
  Type :: string
  Gain :: float64
  Peak :: float64
  Fee :: int
  Uf :: iface
  Payed :: int
  Flag :: int
  CanExtend :: bool
  FreeTrialInfo :: iface
  Level :: string

record SongURLResponse =
  Code :: int
  Data :: "SongData list option"

record ErrorResponse =
  Code :: int
  Message :: string

text \<open>The zero values of the two structs; a \<^verbatim>\<open>nil\<close> slice is \<open>None\<close>.\<close>

definition zero_SongData :: SongData where
  "zero_SongData =
     \<lparr> ID = 0, URL = [], Br = 0, Size = 0, MD5 = [], SongData.Code = 0, Expi = 0, Type = [],
       Gain = zero_float64, Peak = zero_float64, Fee = 0, Uf = INil, Payed = 0, Flag = 0,
       CanExtend = False, FreeTrialInfo = INil, SongData.Level = [] \<rparr>"

definition zero_SongURLResponse :: SongURLResponse where
  "zero_SongURLResponse = \<lparr> SongURLResponse.Code = 0, Data = None \<rparr>"

text \<open>The keys given by the \<^verbatim>\<open>json:"..."\<close> tags, in the order of the fields.\<close>

definition SongData_tags :: "string list" where
  "SongData_tags =
     [''id'', ''url'', ''br'', ''size'', ''md5'', ''code'', ''expi'', ''type'', ''gain'', ''peak'',
      ''fee'', ''uf'', ''payed'', ''flag'', ''canExtend'', ''freeTrialInfo'', ''level'']"

definition SongURLResponse_tags :: "string list" where
  "SongURLResponse_tags = [''code'', ''data'']"

subsection \<open>\<^verbatim>\<open>json.Unmarshal\<close> into \<^verbatim>\<open>SongURLResponse\<close>\<close>

text \<open>
  An object key selects the field whose tag it equals and, failing that, the field whose
  tag it equals under Unicode case folding. \<open>foldName\<close> maps ASCII letters to upper
  case; it also maps the two characters outside ASCII whose folding is an ASCII letter,
  U+017F (long s, bytes C5 BF) and U+212A (Kelvin sign, bytes E2 84 AA), to \<^verbatim>\<open>S\<close> and
  \<^verbatim>\<open>K\<close>. The other bytes outside ASCII are copied: the library folds such characters
  among themselves, which never makes a key equal to one of the tags above, all ASCII.
\<close>

definition upper_ascii :: "char \<Rightarrow> char" where
  "upper_ascii c = (let n = (of_char c :: nat) in if 97 \<le> n \<and> n \<le> 122 then char_of (n - 32) else c)"

fun foldName :: "string \<Rightarrow> string" where
  "foldName [] = []"
| "foldName (c # cs) =
     (if (of_char c :: nat) < 128 then upper_ascii c # foldName cs
      else if c = CHR 0xC5 \<and> take 1 cs = [CHR 0xBF] then CHR ''S'' # foldName (drop 1 cs)
      else if c = CHR 0xE2 \<and> take 2 cs = [CHR 0x84, CHR 0xAA] then CHR ''K'' # foldName (drop 2 cs)
      else c # foldName cs)"

definition lookup_field :: "string list \<Rightarrow> string \<Rightarrow> string option" where
  "lookup_field tags key =
     (if key \<in> set tags then Some key else find (\<lambda>t. foldName t = foldName key) tags)"

text \<open>
  Storing a JSON value into a field of a scalar type. The first argument is the field's
  current value: \<^verbatim>\<open>null\<close> leaves it as it is. \<open>None\<close> stands for the library's
  \<^verbatim>\<open>UnmarshalTypeError\<close>. The decoder goes on after such an error and reports it at the
  end; since \<^verbatim>\<open>getSongURL\<close> discards the value when an error is reported, the model stops
  at the first one.
\<close>

fun store_int :: "int \<Rightarrow> json \<Rightarrow> int option" where
  "store_int old JNull = Some old"
| "store_int old (JNumber n) = number_int64 n"
| "store_int old _ = None"

fun store_string :: "string \<Rightarrow> json \<Rightarrow> string option" where
  "store_string old JNull = Some old"
| "store_string old (JString s) = Some s"
| "store_string old _ = None"

fun store_bool :: "bool \<Rightarrow> json \<Rightarrow> bool option" where
  "store_bool old JNull = Some old"
| "store_bool old (JBool b) = Some b"
| "store_bool old _ = None"

fun store_float64 :: "float64 \<Rightarrow> json \<Rightarrow> float64 option" where
  "store_float64 old JNull = Some old"
| "store_float64 old (JNumber n) = number_float64 n"
| "store_float64 old _ = None"

text \<open>One member of an object that is decoded into a \<open>SongData\<close>; unknown keys are skipped.\<close>

definition store_SongData_field :: "SongData \<Rightarrow> string \<Rightarrow> json \<Rightarrow> SongData option" where
  "store_SongData_field e key v =
     (case lookup_field SongData_tags key of
        None \<Rightarrow> Some e
      | Some t \<Rightarrow>
          if t = ''id'' then map_option (\<lambda>x. e\<lparr>ID := x\<rparr>) (store_int (ID e) v)
          else if t = ''url'' then map_option (\<lambda>x. e\<lparr>URL := x\<rparr>) (store_string (URL e) v)
          else if t = ''br'' then map_option (\<lambda>x. e\<lparr>Br := x\<rparr>) (store_int (Br e) v)
          else if t = ''size'' then map_option (\<lambda>x. e\<lparr>Size := x\<rparr>) (store_int (Size e) v)
          else if t = ''md5'' then map_option (\<lambda>x. e\<lparr>MD5 := x\<rparr>) (store_string (MD5 e) v)
          else if t = ''code'' then map_option (\<lambda>x. e\<lparr>SongData.Code := x\<rparr>) (store_int (SongData.Code e) v)
          else if t = ''expi'' then map_option (\<lambda>x. e\<lparr>Expi := x\<rparr>) (store_int (Expi e) v)
          else if t = ''type'' then map_option (\<lambda>x. e\<lparr>Type := x\<rparr>) (store_string (Type e) v)
          else if t = ''gain'' then map_option (\<lambda>x. e\<lparr>Gain := x\<rparr>) (store_float64 (Gain e) v)
          else if t = ''peak'' then map_option (\<lambda>x. e\<lparr>Peak := x\<rparr>) (store_float64 (Peak e) v)
          else if t = ''fee'' then map_option (\<lambda>x. e\<lparr>Fee := x\<rparr>) (store_int (Fee e) v)
          else if t = ''uf'' then map_option (\<lambda>x. e\<lparr>Uf := x\<rparr>) (valueInterface v)
          else if t = ''payed'' then map_option (\<lambda>x. e\<lparr>Payed := x\<rparr>) (store_int (Payed e) v)
          else if t = ''flag'' then map_option (\<lambda>x. e\<lparr>Flag := x\<rparr>) (store_int (Flag e) v)
          else if t = ''canExtend'' then map_option (\<lambda>x. e\<lparr>CanExtend := x\<rparr>) (store_bool (CanExtend e) v)
          else if t = ''freeTrialInfo'' then map_option (\<lambda>x. e\<lparr>FreeTrialInfo := x\<rparr>) (valueInterface v)
          else map_option (\<lambda>x. e\<lparr>SongData.Level := x\<rparr>) (store_string (SongData.Level e) v))"

fun store_SongData_members :: "SongData \<Rightarrow> (string \<times> json) list \<Rightarrow> SongData option" where
  "store_SongData_members e [] = Some e"
| "store_SongData_members e ((k, v) # ms) =
     (case store_SongData_field e k v of
        None \<Rightarrow> None
      | Some e' \<Rightarrow> store_SongData_members e' ms)"

text \<open>
  A JSON value decoded into a struct: \<^verbatim>\<open>null\<close> leaves the struct as it is, an object
  stores its members one after the other, anything else is a type error.
\<close>

fun store_SongData :: "SongData \<Rightarrow> json \<Rightarrow> SongData option" where
  "store_SongData e JNull = Some e"
| "store_SongData e (JObject ms) = store_SongData_members e ms"
| "store_SongData e _ = None"

text \<open>
  A JSON array decoded into the slice \<^verbatim>\<open>Data\<close>. The decoder sets the slice's length as
  it goes and decodes element \<open>i\<close> into slot \<open>i\<close> of the slice's array. On the first
  \<^verbatim>\<open>data\<close> member of a body every slot is fresh (zero). When a body repeats the member,
  the slots still hold the elements of the earlier array, which the decoder does not
  clear; \<open>slots\<close> below is that content. An empty array gives a new empty slice, and
  \<^verbatim>\<open>null\<close> gives \<^verbatim>\<open>nil\<close>.
\<close>

fun store_elements :: "SongData list \<Rightarrow> json list \<Rightarrow> SongData list option" where
  "store_elements slots [] = Some []"
| "store_elements slots (j # js) =
     (case store_SongData (case slots of [] \<Rightarrow> zero_SongData | e # _ \<Rightarrow> e) j of
        None \<Rightarrow> None
      | Some e' \<Rightarrow> map_option (Cons e') (store_elements (tl slots) js))"

fun store_Data :: "SongData list \<Rightarrow> json \<Rightarrow> (SongData list option \<times> SongData list) option" where
  "store_Data slots JNull = Some (None, [])"
| "store_Data slots (JArray js) =
     (if js = [] then Some (Some [], [])
      else map_option (\<lambda>es. (Some es, es @ drop (length js) slots)) (store_elements slots js))"
| "store_Data slots _ = None"

text \<open>The members of the top-level object; the state pairs the struct with the slots.\<close>

definition store_SongURLResponse_field ::
  "SongURLResponse \<times> SongData list \<Rightarrow> string \<Rightarrow> json \<Rightarrow> (SongURLResponse \<times> SongData list) option" where
  "store_SongURLResponse_field st key v =
     (case lookup_field SongURLResponse_tags key of
        None \<Rightarrow> Some st
      | Some t \<Rightarrow>
          if t = ''code''
          then map_option (\<lambda>x. ((fst st)\<lparr>SongURLResponse.Code := x\<rparr>, snd st))
                 (store_int (SongURLResponse.Code (fst st)) v)
          else map_option (\<lambda>(d, slots). ((fst st)\<lparr>Data := d\<rparr>, slots)) (store_Data (snd st) v))"

fun store_SongURLResponse_members ::
  "SongURLResponse \<times> SongData list \<Rightarrow> (string \<times> json) list \<Rightarrow> (SongURLResponse \<times> SongData list) option" where
  "store_SongURLResponse_members st [] = Some st"
| "store_SongURLResponse_members st ((k, v) # ms) =
     (case store_SongURLResponse_field st k v of
        None \<Rightarrow> None
      | Some st' \<Rightarrow> store_SongURLResponse_members st' ms)"

fun store_SongURLResponse :: "SongURLResponse \<Rightarrow> json \<Rightarrow> SongURLResponse option" where
  "store_SongURLResponse r JNull = Some r"
| "store_SongURLResponse r (JObject ms) = map_option fst (store_SongURLResponse_members (r, []) ms)"
| "store_SongURLResponse r _ = None"

datatype UnmarshalError = SyntaxError | UnmarshalTypeError

text \<open>\<^verbatim>\<open>json.Unmarshal(body, &songResp)\<close> for the freshly declared \<^verbatim>\<open>songResp\<close> (lines 181-182).\<close>

definition Unmarshal :: "body \<Rightarrow> UnmarshalError + SongURLResponse" where
  "Unmarshal b =
     (case b of
        Malformed \<Rightarrow> Inl SyntaxError
      | Document j \<Rightarrow>
          (case store_SongURLResponse zero_SongURLResponse j of
             None \<Rightarrow> Inl UnmarshalTypeError
           | Some r \<Rightarrow> Inr r))"

subsection \<open>\<^verbatim>\<open>json.Marshal\<close>, as \<^verbatim>\<open>c.JSON\<close> calls it\<close>

text \<open>
  The document that the encoder writes, as a tree. An integer leaf is written in
  decimal, a float leaf with Go's shortest formatting of the double; a struct gives
  one member per field, named by its tag, in the order of the fields (no field has
  \<^verbatim>\<open>omitempty\<close>); a map gives its members sorted by key; a \<^verbatim>\<open>nil\<close> slice gives \<^verbatim>\<open>null\<close>.
\<close>

datatype doc =
    DNull
  | DBool bool
  | DInt int
  | DFloat float64
  | DString string
  | DArray "doc list"
  | DObject "(string \<times> doc) list"

fun Marshal_iface :: "iface \<Rightarrow> doc" where
  "Marshal_iface INil = DNull"
| "Marshal_iface (IBool b) = DBool b"
| "Marshal_iface (IFloat f) = DFloat f"
| "Marshal_iface (IString s) = DString s"
| "Marshal_iface (ISlice xs) = DArray (map Marshal_iface xs)"
| "Marshal_iface (IMap m) = DObject (sort_key fst (map (\<lambda>(k, v). (k, Marshal_iface v)) m))"

definition Marshal_SongData :: "SongData \<Rightarrow> doc" where
  "Marshal_SongData e =
     DObject
       [(''id'', DInt (ID e)),
        (''url'', DString (URL e)),
        (''br'', DInt (Br e)),
        (''size'', DInt (Size e)),
        (''md5'', DString (MD5 e)),
        (''code'', DInt (SongData.Code e)),
        (''expi'', DInt (Expi e)),
        (''type'', DString (Type e)),
        (''gain'', DFloat (Gain e)),
        (''peak'', DFloat (Peak e)),
        (''fee'', DInt (Fee e)),
        (''uf'', Marshal_iface (Uf e)),
        (''payed'', DInt (Payed e)),
        (''flag'', DInt (Flag e)),
        (''canExtend'', DBool (CanExtend e)),
        (''freeTrialInfo'', Marshal_iface (FreeTrialInfo e)),
        (''level'', DString (SongData.Level e))]"

definition Marshal_SongURLResponse :: "SongURLResponse \<Rightarrow> doc" where
  "Marshal_SongURLResponse r =
     DObject
       [(''code'', DInt (SongURLResponse.Code r)),
        (''data'', case Data r of None \<Rightarrow> DNull | Some es \<Rightarrow> DArray (map Marshal_SongData es))]"

definition Marshal_ErrorResponse :: "ErrorResponse \<Rightarrow> doc" where
  "Marshal_ErrorResponse e =
     DObject [(''code'', DInt (ErrorResponse.Code e)), (''message'', DString (Message e))]"

text \<open>\<^verbatim>\<open>gin.H\<close> is \<^verbatim>\<open>map[string]any\<close>; its members are written sorted by key.\<close>

definition Marshal_H :: "(string \<times> doc) list \<Rightarrow> doc" where
  "Marshal_H m = DObject (sort_key fst m)"

text \<open>The names of the members of an object, received or written.\<close>

fun json_members :: "json \<Rightarrow> string list" where
  "json_members (JObject ms) = map fst ms"
| "json_members _ = []"

fun doc_members :: "doc \<Rightarrow> string list" where
  "doc_members (DObject ms) = map fst ms"
| "doc_members _ = []"

fun doc_member :: "doc \<Rightarrow> string \<Rightarrow> doc option" where
  "doc_member (DObject ms) k = map_of ms k"
| "doc_member _ k = None"

section \<open>The handlers\<close>

text \<open>What \<^verbatim>\<open>c.JSON(status, obj)\<close> writes: the HTTP status and the encoded object.\<close>

record Written =
  status :: int
  content :: doc

definition c_JSON :: "int \<Rightarrow> doc \<Rightarrow> Written" where
  "c_JSON code obj = \<lparr> status = code, content = obj \<rparr>"

text \<open>
  Time. \<^verbatim>\<open>time.Now()\<close> is an input of the handlers, given as the wall clock's reading in
  nanoseconds since the Unix epoch. \<^verbatim>\<open>Unix()\<close> is that reading in whole seconds
  (rounded down); \<^verbatim>\<open>UnixNano()\<close> is the reading as an \<^verbatim>\<open>int64\<close>, wrapping around
  outside its range. \<open>quo\<close> is Go's integer division, which truncates toward zero.
\<close>

definition int64 :: "int \<Rightarrow> int" where
  "int64 x = (x + 2 ^ 63) mod 2 ^ 64 - 2 ^ 63"

definition Unix :: "int \<Rightarrow> int" where
  "Unix now = now div 1000000000"

definition UnixNano :: "int \<Rightarrow> int" where
  "UnixNano now = int64 now"

definition quo :: "int \<Rightarrow> int \<Rightarrow> int" where
  "quo a b = (if (a < 0) = (b < 0) then \<bar>a\<bar> div \<bar>b\<bar> else - (\<bar>a\<bar> div \<bar>b\<bar>))"

text \<open>The closure registered for \<^verbatim>\<open>GET /health\<close> (lines 97-104).\<close>

definition health :: "int \<Rightarrow> Written" where
  "health now =
     c_JSON 200
       (Marshal_H
          [(''status'', DString ''ok''),
           (''service'', DString ''PublicMusicService''),
           (''version'', DString ''1.0.0''),
           (''timestamp'', DInt (Unix now))])"

text \<open>
  The upstream service is an input of \<^verbatim>\<open>getSongURL\<close>: a function from the requested URL
  to what \<^verbatim>\<open>http.Get\<close> returns, an error or a response with its status code and its
  body; reading the body (\<^verbatim>\<open>io.ReadAll\<close>) fails or yields the bytes.
\<close>

datatype read_result = ReadError | ReadAll body

datatype get_result = GetError | GetResponse int read_result

text \<open>The query parameters of the upstream request (lines 148-153).\<close>

definition songParams :: "Config \<Rightarrow> int \<Rightarrow> string \<Rightarrow> int \<Rightarrow> string \<Rightarrow> Values" where
  "songParams config songID level timestamp realIP =
     (let params = [];
          params = Values_Add params ''id'' (Itoa songID);
          params = Values_Add params ''level'' level;
          params = Values_Add params ''timestamp'' (FormatInt timestamp);
          params = Values_Add params ''cookie'' (Cookie config);
          params = Values_Add params ''realIP'' realIP
      in params)"

text \<open>
  \<^verbatim>\<open>getSongURL\<close> (lines 118-202), in three parts. \<open>upstreamURL\<close> is lines 139-155: the
  optional parameters, the timestamp in milliseconds and the URL of the upstream
  request.
\<close>

definition upstreamURL :: "Config \<Rightarrow> int \<Rightarrow> Values \<Rightarrow> int \<Rightarrow> string" where
  "upstreamURL config now q songID =
     (let level = DefaultQuery q ''level'' (Config.Level config);
          realIP = DefaultQuery q ''realip'' (RealIP config);
          timestamp = quo (UnixNano now) 1000000;
          apiURL = NeteaseMusicAPI config @ ''/song/url/v1'';
          params = songParams config songID level timestamp realIP
      in apiURL @ ''?'' @ Values_Encode params)"

text \<open>
  \<open>relay\<close> is lines 158-201: what the handler writes, given what \<^verbatim>\<open>http.Get\<close> returned.
  The status code of the upstream response is bound and never read.
\<close>

definition relay :: "get_result \<Rightarrow> Written" where
  "relay got =
     (case got of
        GetError \<Rightarrow>
          c_JSON 500 (Marshal_ErrorResponse
            \<lparr> ErrorResponse.Code = 500, Message = ''Failed to request music service'' \<rparr>)
      | GetResponse statusCode read \<Rightarrow>
          (case read of
             ReadError \<Rightarrow>
               c_JSON 500 (Marshal_ErrorResponse
                 \<lparr> ErrorResponse.Code = 500,
                   Message = ''Failed to read response from music service'' \<rparr>)
           | ReadAll body \<Rightarrow>
               (case Unmarshal body of
                  Inl err \<Rightarrow>
                    c_JSON 500 (Marshal_ErrorResponse
                      \<lparr> ErrorResponse.Code = 500,
                        Message = ''Failed to parse response from music service'' \<rparr>)
                | Inr songResp \<Rightarrow>
                    if SongURLResponse.Code songResp \<noteq> 200 then
                      c_JSON 400 (Marshal_ErrorResponse
                        \<lparr> ErrorResponse.Code = SongURLResponse.Code songResp,
                          Message = ''Music service returned error'' \<rparr>)
                    else c_JSON 200 (Marshal_SongURLResponse songResp))))"

text \<open>
  The handler. Its result pairs the URLs requested from the upstream service, in
  order (none when the request is rejected before line 158), with what is written to
  the caller. The log lines are left out.
\<close>

definition getSongURL ::
  "Config \<Rightarrow> int \<Rightarrow> (string \<Rightarrow> get_result) \<Rightarrow> Values \<Rightarrow> string list \<times> Written" where
  "getSongURL config now http_Get q =
     (let idStr = Query q ''id'' in
      if idStr = [] then
        ([], c_JSON 400 (Marshal_ErrorResponse
               \<lparr> ErrorResponse.Code = 400, Message = ''Missing required parameter: id'' \<rparr>))
      else
        case Atoi idStr of
          Inl err \<Rightarrow>
            ([], c_JSON 400 (Marshal_ErrorResponse
                   \<lparr> ErrorResponse.Code = 400, Message = ''Invalid song id format'' \<rparr>))
        | Inr songID \<Rightarrow>
            let fullURL = upstreamURL config now q songID
            in ([fullURL], relay (http_Get fullURL)))"

section \<open>Reference notions used in the statements\<close>

text \<open>
  What it means for a string to be the decimal notation of a 64-bit integer: an
  optional sign, then at least one decimal digit and nothing else, with a value between
  \<open>- 2 ^ 63\<close> and \<open>2 ^ 63 - 1\<close>. Leading zeros and a leading plus sign are allowed.
\<close>

definition is_digit :: "char \<Rightarrow> bool" where
  "is_digit c = (48 \<le> (of_char c :: int) \<and> (of_char c :: int) \<le> 57)"

definition digit_value :: "char \<Rightarrow> int" where
  "digit_value c = of_char c - 48"

definition decimal_value :: "string \<Rightarrow> int" where
  "decimal_value ds = foldl (\<lambda>a c. a * 10 + digit_value c) 0 ds"

fun split_sign :: "string \<Rightarrow> bool \<times> string" where
  "split_sign [] = (False, [])"
| "split_sign (c # cs) =
     (if c = CHR ''-'' then (True, cs) else if c = CHR ''+'' then (False, cs) else (False, c # cs))"

definition decimal_int :: "string \<Rightarrow> int option" where
  "decimal_int s =
     (case split_sign s of
        (neg, ds) \<Rightarrow>
          if ds = [] \<or> \<not> list_all is_digit ds then None
          else let v = (if neg then - decimal_value ds else decimal_value ds)
               in if - (2 ^ 63) \<le> v \<and> v \<le> 2 ^ 63 - 1 then Some v else None)"

text \<open>Reading one more digit: the step of \<open>decimal_value\<close> and of the loops above.\<close>

abbreviation step :: "int \<Rightarrow> char \<Rightarrow> int" where
  "step \<equiv> (\<lambda>a c. a * 10 + digit_value c)"

text \<open>
  What the receiver of a query string reads back from an escaped component
  (\<^verbatim>\<open>url.QueryUnescape\<close>): \<^verbatim>\<open>+\<close> is a space, \<^verbatim>\<open>%XX\<close> is the byte with that hexadecimal
  code, every other byte is itself; a \<^verbatim>\<open>%\<close> that is not followed by two hexadecimal
  digits is an error.
\<close>

definition unhex :: "char \<Rightarrow> nat option" where
  "unhex c =
     (let n = (of_char c :: nat)
      in if 48 \<le> n \<and> n \<le> 57 then Some (n - 48)
         else if 97 \<le> n \<and> n \<le> 102 then Some (n - 97 + 10)
         else if 65 \<le> n \<and> n \<le> 70 then Some (n - 65 + 10)
         else None)"

fun QueryUnescape :: "string \<Rightarrow> string option" where
  "QueryUnescape [] = Some []"
| "QueryUnescape (c # cs) =
     (if c = CHR ''%'' then
        (case cs of
           h1 # h2 # rest \<Rightarrow>
             (case (unhex h1, unhex h2) of
                (Some a, Some b) \<Rightarrow> map_option (Cons (char_of (a * 16 + b))) (QueryUnescape rest)
              | _ \<Rightarrow> None)
         | _ \<Rightarrow> None)
      else if c = CHR ''+'' then map_option (Cons CHR '' '') (QueryUnescape cs)
      else map_option (Cons c) (QueryUnescape cs))"

subsection \<open>Which member names which field\<close>

text \<open>
  A key names a declared field when it spells the field's tag, letter case ignored.
  Unicode case folding also makes the Kelvin sign (U+212A, bytes E2 84 AA) a spelling of
  \<^verbatim>\<open>k\<close> and the long s (U+017F, bytes C5 BF) a spelling of \<^verbatim>\<open>s\<close>. This is stated here on
  its own, by comparing the tag and the key letter by letter; it does not use the
  decoder's \<open>foldName\<close> or \<open>lookup_field\<close>.
\<close>

definition is_letter :: "char \<Rightarrow> bool" where
  "is_letter c = (let n = (of_char c :: nat) in (65 \<le> n \<and> n \<le> 90) \<or> (97 \<le> n \<and> n \<le> 122))"

definition same_letter :: "char \<Rightarrow> char \<Rightarrow> bool" where
  "same_letter a b =
     (a = b \<or> (is_letter a \<and> is_letter b \<and>
        ((of_char a :: nat) + 32 = of_char b \<or> (of_char b :: nat) + 32 = of_char a)))"

fun spells :: "string \<Rightarrow> string \<Rightarrow> bool" where
  "spells [] key = (key = [])"
| "spells (t # ts) key =
     (case key of
        [] \<Rightarrow> False
      | c # cs \<Rightarrow>
          (same_letter t c \<and> spells ts cs)
          \<or> (same_letter t CHR ''k'' \<and> take 3 key = [CHR 0xE2, CHR 0x84, CHR 0xAA]
               \<and> spells ts (drop 3 key))
          \<or> (same_letter t CHR ''s'' \<and> take 2 key = [CHR 0xC5, CHR 0xBF]
               \<and> spells ts (drop 2 key)))"

definition field_named :: "string list \<Rightarrow> string \<Rightarrow> string option" where
  "field_named tags key = find (\<lambda>t. spells t key) tags"

text \<open>The values that the members of an object give to a field, in the order of the text.\<close>

definition named_values :: "string list \<Rightarrow> string \<Rightarrow> (string \<times> json) list \<Rightarrow> json list" where
  "named_values tags t ms = map snd (filter (\<lambda>m. field_named tags (fst m) = Some t) ms)"

subsection \<open>The Go types of the fields and the JSON values they take\<close>

text \<open>The type of every field of an entry, read off the struct declaration (lines 28-46).\<close>

datatype kind = KInt | KString | KFloat | KBool | KAny

definition SongData_kinds :: "(string \<times> kind) list" where
  "SongData_kinds =
     [(''id'', KInt), (''url'', KString), (''br'', KInt), (''size'', KInt), (''md5'', KString),
      (''code'', KInt), (''expi'', KInt), (''type'', KString), (''gain'', KFloat),
      (''peak'', KFloat), (''fee'', KInt), (''uf'', KAny), (''payed'', KInt), (''flag'', KInt),
      (''canExtend'', KBool), (''freeTrialInfo'', KAny), (''level'', KString)]"

definition SongData_kind :: "string \<Rightarrow> kind" where
  "SongData_kind t = (case map_of SongData_kinds t of Some k \<Rightarrow> k | None \<Rightarrow> KAny)"

text \<open>
  A number literal is an integer when it has neither fraction nor exponent; its value is
  then the signed integer part. As a real number a literal stands for
  \<open>(integer part + fraction) * 10 ^ exponent\<close>; a \<^verbatim>\<open>float64\<close> cannot hold it when that is at
  least \<open>2 ^ 1024 - 2 ^ 970\<close>.
\<close>

definition integer_literal :: "number \<Rightarrow> bool" where
  "integer_literal n = (case n of Number neg w fr ex \<Rightarrow> fr = [] \<and> ex = None)"

definition integer_value :: "number \<Rightarrow> int" where
  "integer_value n = (case n of Number neg w fr ex \<Rightarrow> if neg then - w else w)"

definition int64_literal :: "number \<Rightarrow> bool" where
  "int64_literal n =
     (integer_literal n \<and> - 9223372036854775808 \<le> integer_value n
      \<and> integer_value n \<le> 9223372036854775807)"

fun fraction_value :: "int list \<Rightarrow> real" where
  "fraction_value [] = 0"
| "fraction_value (d # ds) = (real_of_int d + fraction_value ds) / 10"

definition number_magnitude :: "number \<Rightarrow> real" where
  "number_magnitude n =
     (case n of Number neg w fr ex \<Rightarrow>
        (real_of_int w + fraction_value fr) * 10 powi (case ex of None \<Rightarrow> 0 | Some x \<Rightarrow> x))"

definition beyond_float64 :: "number \<Rightarrow> bool" where
  "beyond_float64 n = (2 ^ 1024 - 2 ^ 970 \<le> number_magnitude n)"

fun representable :: "json \<Rightarrow> bool" where
  "representable (JNumber n) = (\<not> beyond_float64 n)"
| "representable (JArray xs) = list_all representable xs"
| "representable (JObject ms) = list_all (\<lambda>m. representable (snd m)) ms"
| "representable _ = True"

text \<open>\<^verbatim>\<open>null\<close> is taken by every type; an \<^verbatim>\<open>interface{}\<close> takes any value.\<close>

fun fits :: "kind \<Rightarrow> json \<Rightarrow> bool" where
  "fits k JNull = True"
| "fits KInt (JNumber n) = int64_literal n"
| "fits KString (JString s) = True"
| "fits KFloat (JNumber n) = (\<not> beyond_float64 n)"
| "fits KBool (JBool b) = True"
| "fits KAny v = representable v"
| "fits k v = False"

text \<open>
  A JSON value conforms to \<^verbatim>\<open>SongURLResponse\<close> when it is an object or \<^verbatim>\<open>null\<close> and every
  member that names a declared field has a value that the field's type takes; for
  \<^verbatim>\<open>data\<close> that is \<^verbatim>\<open>null\<close> or an array whose elements are \<^verbatim>\<open>null\<close> or objects that
  conform in the same way. Members that name no field are not looked at, and no member
  is required.
\<close>

definition SongData_member_fits :: "string \<times> json \<Rightarrow> bool" where
  "SongData_member_fits m =
     (case field_named SongData_tags (fst m) of
        None \<Rightarrow> True
      | Some t \<Rightarrow> fits (SongData_kind t) (snd m))"

fun conforms_SongData :: "json \<Rightarrow> bool" where
  "conforms_SongData JNull = True"
| "conforms_SongData (JObject ms) = list_all SongData_member_fits ms"
| "conforms_SongData v = False"

fun conforms_Data :: "json \<Rightarrow> bool" where
  "conforms_Data JNull = True"
| "conforms_Data (JArray js) = list_all conforms_SongData js"
| "conforms_Data v = False"

definition SongURLResponse_member_fits :: "string \<times> json \<Rightarrow> bool" where
  "SongURLResponse_member_fits m =
     (case field_named SongURLResponse_tags (fst m) of
        None \<Rightarrow> True
      | Some t \<Rightarrow> if t = ''code'' then fits KInt (snd m) else conforms_Data (snd m))"

fun conforms_SongURLResponse :: "json \<Rightarrow> bool" where
  "conforms_SongURLResponse JNull = True"
| "conforms_SongURLResponse (JObject ms) = list_all SongURLResponse_member_fits ms"
| "conforms_SongURLResponse v = False"

text \<open>
  The shape that the specification gives to the upstream result: an object with a
  status code that is an integer and with track entries that are a sequence of entry
  objects. Every stricter reading (typed entry fields, say) asks for these two members
  as well.
\<close>

fun is_object :: "json \<Rightarrow> bool" where
  "is_object (JObject ms) = True"
| "is_object v = False"

fun spec_shape :: "json \<Rightarrow> bool" where
  "spec_shape (JObject ms) =
     ((case map_of ms ''code'' of Some (JNumber n) \<Rightarrow> integer_literal n | _ \<Rightarrow> False)
      \<and> (case map_of ms ''data'' of Some (JArray es) \<Rightarrow> list_all is_object es | _ \<Rightarrow> False))"
| "spec_shape v = False"

subsection \<open>What is written for what was received\<close>

text \<open>
  An opaque member (\<^verbatim>\<open>interface{}\<close>) is written as it was received, up to this: numbers
  are \<^verbatim>\<open>float64\<close> values, and the members of an object are written sorted by key, a
  repeated key with its last value.
\<close>

fun last_per_key :: "(string \<times> 'a) list \<Rightarrow> (string \<times> 'a) list" where
  "last_per_key [] = []"
| "last_per_key (m # ms) =
     (if fst m \<in> fst ` set ms then last_per_key ms else m # last_per_key ms)"

fun opaque_doc :: "json \<Rightarrow> doc" where
  "opaque_doc JNull = DNull"
| "opaque_doc (JBool b) = DBool b"
| "opaque_doc (JNumber n) = DFloat (Nearest n)"
| "opaque_doc (JString s) = DString s"
| "opaque_doc (JArray xs) = DArray (map opaque_doc xs)"
| "opaque_doc (JObject ms) =
     DObject (sort_key fst (last_per_key (map (\<lambda>m. (fst m, opaque_doc (snd m))) ms)))"

text \<open>
  The written value of a field of an entry, from the values that the members of the
  received entry give to it. A field starts at the zero value of its type; the values
  are applied in the order of the text; \<^verbatim>\<open>null\<close> leaves a field as it is, except an
  opaque one, which it sets to \<^verbatim>\<open>null\<close>. So a field that no member names is written with
  its zero value, and a field named once, not by \<^verbatim>\<open>null\<close>, with the value received.
\<close>

fun zero_doc :: "kind \<Rightarrow> doc" where
  "zero_doc KInt = DInt 0"
| "zero_doc KString = DString []"
| "zero_doc KFloat = DFloat zero_float64"
| "zero_doc KBool = DBool False"
| "zero_doc KAny = DNull"

fun put :: "kind \<Rightarrow> json \<Rightarrow> doc \<Rightarrow> doc" where
  "put KAny v old = opaque_doc v"
| "put KInt (JNumber n) old = DInt (integer_value n)"
| "put KString (JString s) old = DString s"
| "put KFloat (JNumber n) old = DFloat (Nearest n)"
| "put KBool (JBool b) old = DBool b"
| "put k v old = old"

definition put_values :: "kind \<Rightarrow> json list \<Rightarrow> doc \<Rightarrow> doc" where
  "put_values k vs old = foldl (\<lambda>d v. put k v d) old vs"

definition written_value :: "kind \<Rightarrow> json list \<Rightarrow> doc" where
  "written_value k vs = put_values k vs (zero_doc k)"

fun json_members_of :: "json \<Rightarrow> (string \<times> json) list" where
  "json_members_of (JObject ms) = ms"
| "json_members_of v = []"

definition expected_entry :: "json \<Rightarrow> doc" where
  "expected_entry j =
     DObject (map (\<lambda>t. (t, written_value (SongData_kind t)
                               (named_values SongData_tags t (json_members_of j))))
                  SongData_tags)"

text \<open>
  The written \<^verbatim>\<open>data\<close>, from the values that the members of the received body give to
  it, in the order of the text. \<^verbatim>\<open>null\<close> gives \<^verbatim>\<open>null\<close>, an array gives one entry per
  element. A body that names \<^verbatim>\<open>data\<close> once, by an array, is written with
  \<open>expected_entry\<close> of every element. When a body names \<^verbatim>\<open>data\<close> again, by another
  array, the fields of entry \<open>i\<close> do not start at their zero values but at what the
  earlier array left at index \<open>i\<close>: \<open>put_entry\<close> applies an element to the members of
  an earlier entry, and the second component of the state of \<open>put_data\<close> is what the
  earlier arrays left (nothing after \<^verbatim>\<open>null\<close> or an empty array).
\<close>

type_synonym entry = "(string \<times> doc) list"

fun members_of :: "doc \<Rightarrow> entry" where
  "members_of (DObject ms) = ms"
| "members_of d = []"

definition zero_entry :: entry where
  "zero_entry = map (\<lambda>t. (t, zero_doc (SongData_kind t))) SongData_tags"

definition put_entry :: "entry \<Rightarrow> json \<Rightarrow> entry" where
  "put_entry old j =
     map (\<lambda>m. (fst m, put_values (SongData_kind (fst m))
                            (named_values SongData_tags (fst m) (json_members_of j)) (snd m)))
         old"

fun put_entries :: "entry list \<Rightarrow> json list \<Rightarrow> entry list" where
  "put_entries olds [] = []"
| "put_entries olds (j # js) =
     put_entry (case olds of [] \<Rightarrow> zero_entry | e # _ \<Rightarrow> e) j # put_entries (tl olds) js"

fun put_data :: "doc \<times> entry list \<Rightarrow> json \<Rightarrow> doc \<times> entry list" where
  "put_data (w, olds) JNull = (DNull, [])"
| "put_data (w, olds) (JArray js) =
     (if js = [] then (DArray [], [])
      else (DArray (map DObject (put_entries olds js)),
            put_entries olds js @ drop (length js) olds))"
| "put_data (w, olds) v = (w, olds)"

definition written_data :: "json list \<Rightarrow> doc" where
  "written_data vs = fst (foldl put_data (DNull, []) vs)"

subsection \<open>Auxiliary notions for the proofs\<close>

text \<open>
  The map that the decoder builds for an object decoded into an \<^verbatim>\<open>interface{}\<close>, from the
  members in the order of the text.
\<close>

abbreviation store_all :: "(string \<times> 'a) list \<Rightarrow> (string \<times> 'a) list \<Rightarrow> (string \<times> 'a) list" where
  "store_all m0 kvs \<equiv> foldl (\<lambda>m (k, v). map_store m k v) m0 kvs"

text \<open>The members written for an entry, and the document written for the slice \<^verbatim>\<open>Data\<close>.\<close>

abbreviation entry_of :: "SongData \<Rightarrow> entry" where
  "entry_of e \<equiv> members_of (Marshal_SongData e)"

definition Marshal_Data :: "SongData list option \<Rightarrow> doc" where
  "Marshal_Data d = (case d of None \<Rightarrow> DNull | Some es \<Rightarrow> DArray (map Marshal_SongData es))"

text \<open>
  \<open>with_status s http_Get\<close> is the upstream service \<open>http_Get\<close> with the status code of
  every response replaced by \<open>s\<close>.
\<close>

definition with_status :: "int \<Rightarrow> (string \<Rightarrow> get_result) \<Rightarrow> string \<Rightarrow> get_result" where
  "with_status s http_Get url =
     (case http_Get url of
        GetError \<Rightarrow> GetError
      | GetResponse statusCode read \<Rightarrow> GetResponse s read)"

section \<open>Example inputs\<close>

definition ex_config :: Config where
  "ex_config =
     \<lparr> Port = ''8080'', Cookie = ''MUSIC_U=abc; os=pc'', RealIP = ''116.25.146.177'',
       Config.Level = ''exhigh'', NeteaseMusicAPI = ''https://example.com'' \<rparr>"

definition ex_now :: int where
  "ex_now = 1700000000123456789"

text \<open>An upstream service that answers every request with the given status and body.\<close>

definition replies :: "int \<Rightarrow> body \<Rightarrow> string \<Rightarrow> get_result" where
  "replies statusCode b url = GetResponse statusCode (ReadAll b)"

text \<open>\<^verbatim>\<open>{"code":404,"msg":"not found"}\<close>\<close>

definition ex_not_found :: json where
  "ex_not_found =
     JObject [(''code'', JNumber (Number False 404 [] None)), (''msg'', JString ''not found'')]"

text \<open>The environment of a deployment that sets the cookie and the port.\<close>

definition ex_env :: environ where
  "ex_env = [''NETEASE_COOKIE'' \<mapsto> ''MUSIC_U=abc'', ''PORT'' \<mapsto> ''9000'', ''LEVEL'' \<mapsto> '''']"

text \<open>\<^verbatim>\<open>{"code":200,"data":[{"id":5,"url":"http://m/5.mp3"}],"msg":"ok"}\<close>\<close>

definition ex_song :: json where
  "ex_song =
     JObject
       [(''code'', JNumber (Number False 200 [] None)),
        (''data'', JArray [JObject [(''id'', JNumber (Number False 5 [] None)),
                                    (''url'', JString ''http://m/5.mp3'')]]),
        (''msg'', JString ''ok'')]"

definition ex_song_decoded :: SongURLResponse where
  "ex_song_decoded =
     \<lparr> SongURLResponse.Code = 200,
       Data = Some [zero_SongData \<lparr> ID := 5, URL := ''http://m/5.mp3'' \<rparr>] \<rparr>"

text \<open>\<^verbatim>\<open>{"code":"200"}\<close>: the code is a string.\<close>

definition ex_code_as_string :: json where
  "ex_code_as_string = JObject [(''code'', JString ''200'')]"

text \<open>\<^verbatim>\<open>{"code":200}\<close>\<close>

definition ex_no_data :: json where
  "ex_no_data = JObject [(''code'', JNumber (Number False 200 [] None))]"


text \<open>\<^verbatim>\<open>{"code":200,"data":[{"id":1}],"data":[{"url":"u"}]}\<close>: the member \<^verbatim>\<open>data\<close> twice.\<close>

definition ex_repeated_data :: json where
  "ex_repeated_data =
     JObject
       [(''code'', JNumber (Number False 200 [] None)),
        (''data'', JArray [JObject [(''id'', JNumber (Number False 1 [] None))]]),
        (''data'', JArray [JObject [(''url'', JString ''u'')]])]"
section \<open>\<^verbatim>\<open>Atoi\<close> accepts exactly the decimal notations of 64-bit integers\<close>

lemma digit_of_iff: "digit_of c = (if is_digit c then Some (digit_value c) else None)"
  by (simp add: digit_of_def is_digit_def digit_value_def Let_def)

lemma digit_value_bounds: "is_digit c \<Longrightarrow> 0 \<le> digit_value c \<and> digit_value c \<le> 9"
  by (simp add: is_digit_def digit_value_def)

lemma Atoi_loop_digits:
  "list_all is_digit ds \<Longrightarrow> Atoi_loop n ds = Inr (foldl step n ds)"
  by (induction ds arbitrary: n) (simp_all add: digit_of_iff)

lemma Atoi_loop_nondigit:
  "\<not> list_all is_digit ds \<Longrightarrow> Atoi_loop n ds = Inl ErrSyntax"
  by (induction ds arbitrary: n) (simp_all add: digit_of_iff)

lemma foldl_step_mono:
  "list_all is_digit ds \<Longrightarrow> 0 \<le> n \<Longrightarrow> n \<le> foldl step n ds"
proof (induction ds arbitrary: n)
  case Nil
  then show ?case by simp
next
  case (Cons c cs)
  from Cons.prems have d: "0 \<le> digit_value c" and cs: "list_all is_digit cs"
    using digit_value_bounds by auto
  have "n \<le> n * 10 + digit_value c" using Cons.prems(2) d by simp
  also have "\<dots> \<le> foldl step (n * 10 + digit_value c) cs"
    using Cons.IH [OF cs, of "n * 10 + digit_value c"] Cons.prems(2) d by simp
  finally show ?case by simp
qed

lemma foldl_step_upper:
  "list_all is_digit ds \<Longrightarrow> foldl step n ds < (n + 1) * 10 ^ length ds"
proof (induction ds arbitrary: n)
  case Nil
  then show ?case by simp
next
  case (Cons c cs)
  from Cons.prems have d: "digit_value c \<le> 9" and cs: "list_all is_digit cs"
    using digit_value_bounds by auto
  have "foldl step (n * 10 + digit_value c) cs < (n * 10 + digit_value c + 1) * 10 ^ length cs"
    using Cons.IH [OF cs] .
  also have "\<dots> \<le> ((n + 1) * 10) * 10 ^ length cs"
    using d by (intro mult_right_mono) simp_all
  finally show ?case by (simp add: algebra_simps)
qed

lemma ParseUint_loop_digits:
  "list_all is_digit ds \<Longrightarrow> 0 \<le> n \<Longrightarrow> n \<le> maxUint64 \<Longrightarrow>
   ParseUint_loop n ds =
     (if foldl step n ds \<le> maxUint64 then Inr (foldl step n ds) else Inl ErrRange)"
proof (induction ds arbitrary: n)
  case Nil
  then show ?case by simp
next
  case (Cons c cs)
  from Cons.prems have d: "0 \<le> digit_value c" "digit_value c \<le> 9" and cs: "list_all is_digit cs"
    and c: "is_digit c"
    using digit_value_bounds by auto
  let ?n1 = "n * 10 + digit_value c"
  have n1: "0 \<le> ?n1" using Cons.prems(2) d by simp
  have ge: "?n1 \<le> foldl step ?n1 cs" using foldl_step_mono [OF cs n1] .
  show ?case
  proof (cases "n \<ge> maxUint64 div 10 + 1")
    case True
    then have "maxUint64 < ?n1" using d by (simp add: maxUint64_def)
    with ge True c show ?thesis by (simp add: digit_of_iff)
  next
    case False
    note small = this
    show ?thesis
    proof (cases "?n1 > maxUint64")
      case True
      with ge small c show ?thesis by (simp add: digit_of_iff Let_def)
    next
      case False
      then have "?n1 \<le> maxUint64" by simp
      from Cons.IH [OF cs n1 this] False small c show ?thesis by (simp add: digit_of_iff Let_def)
    qed
  qed
qed

lemma ParseUint_loop_nondigit:
  "\<not> list_all is_digit ds \<Longrightarrow> \<exists>e. ParseUint_loop n ds = Inl e"
  by (induction ds arbitrary: n) (auto simp add: digit_of_iff Let_def)

lemma decimal_value_nonneg: "list_all is_digit ds \<Longrightarrow> 0 \<le> decimal_value ds"
  unfolding decimal_value_def using foldl_step_mono [of ds 0] by simp

lemma ParseUint_digits:
  assumes "ds \<noteq> []" and "list_all is_digit ds"
  shows "ParseUint ds =
     (if decimal_value ds \<le> maxUint64 then Inr (decimal_value ds) else Inl ErrRange)"
  using assms ParseUint_loop_digits [OF assms(2), of 0]
  by (simp add: ParseUint_def decimal_value_def maxUint64_def)

lemma ParseUint_bad:
  assumes "ds = [] \<or> \<not> list_all is_digit ds"
  shows "\<exists>e. ParseUint ds = Inl e"
  using assms ParseUint_loop_nondigit [of ds 0] by (auto simp add: ParseUint_def)

lemma decimal_value_small:
  assumes "list_all is_digit ds" and "length ds < 19"
  shows "decimal_value ds < 2 ^ 63"
proof -
  have "decimal_value ds < (0 + 1) * 10 ^ length ds"
    unfolding decimal_value_def using foldl_step_upper [OF assms(1)] .
  also have "(10::int) ^ length ds \<le> 10 ^ 18"
    using assms(2) by (intro power_increasing) simp_all
  finally show "decimal_value ds < 2 ^ 63" by simp
qed

lemma ParseInt_Some:
  assumes "decimal_int s = Some n"
  shows "ParseInt s = Inr n"
proof -
  obtain neg ds where sp: "split_sign s = (neg, ds)" by (cases "split_sign s")
  from assms sp have ds: "ds \<noteq> []" "list_all is_digit ds"
    by (auto simp add: decimal_int_def split: if_splits)
  from assms sp ds have n: "n = (if neg then - decimal_value ds else decimal_value ds)"
    and range: "- (2 ^ 63) \<le> n" "n \<le> 2 ^ 63 - 1"
    by (auto simp add: decimal_int_def Let_def split: if_splits)
  have v0: "0 \<le> decimal_value ds" using ds(2) by (rule decimal_value_nonneg)
  from n range v0 have le: "decimal_value ds \<le> maxUint64"
    by (auto simp add: maxUint64_def split: if_splits)
  have pu: "ParseUint ds = Inr (decimal_value ds)"
    using ParseUint_digits [OF ds] le by simp
  from sp ds obtain c cs where s: "s = c # cs" by (cases s) auto
  show ?thesis
    using sp pu n range v0 unfolding s
    by (auto simp add: ParseInt_def Let_def split: if_splits)
qed

lemma ParseInt_None:
  assumes "decimal_int s = None"
  shows "\<exists>e. ParseInt s = Inl e"
proof (cases s)
  case Nil
  then show ?thesis by (simp add: ParseInt_def)
next
  case (Cons c cs)
  obtain neg ds where sp: "split_sign s = (neg, ds)" by (cases "split_sign s")
  show ?thesis
  proof (cases "ds = [] \<or> \<not> list_all is_digit ds")
    case True
    then obtain e where "ParseUint ds = Inl e" using ParseUint_bad by blast
    with sp show ?thesis unfolding Cons
      by (cases e) (auto simp add: ParseInt_def Let_def split: if_splits)
  next
    case False
    then have ds: "ds \<noteq> []" "list_all is_digit ds" by simp_all
    have v0: "0 \<le> decimal_value ds" using ds(2) by (rule decimal_value_nonneg)
    from assms sp ds have out: "\<not> (- (2 ^ 63) \<le> (if neg then - decimal_value ds else decimal_value ds)
        \<and> (if neg then - decimal_value ds else decimal_value ds) \<le> 2 ^ 63 - 1)"
      by (auto simp add: decimal_int_def Let_def split: if_splits)
    show ?thesis
      using sp out v0 ParseUint_digits [OF ds] unfolding Cons
      by (auto simp add: ParseInt_def Let_def split: if_splits)
  qed
qed

lemma Atoi_Some:
  assumes "decimal_int s = Some n"
  shows "Atoi s = Inr n"
proof (cases "0 < length s \<and> length s < 19")
  case False
  then have "Atoi s = ParseInt s" by (auto simp add: Atoi_def)
  then show ?thesis using ParseInt_Some [OF assms] by simp
next
  case True
  obtain neg ds where sp: "split_sign s = (neg, ds)" by (cases "split_sign s")
  from assms sp have ds: "ds \<noteq> []" "list_all is_digit ds"
    by (auto simp add: decimal_int_def split: if_splits)
  from assms sp ds have n: "n = (if neg then - decimal_value ds else decimal_value ds)"
    by (auto simp add: decimal_int_def Let_def split: if_splits)
  from True obtain c cs where s: "s = c # cs" by (cases s) auto
  have loop: "Atoi_loop 0 ds = Inr (decimal_value ds)"
    using Atoi_loop_digits [OF ds(2), of 0] by (simp add: decimal_value_def)
  show ?thesis
    using True sp ds n loop unfolding s
    by (auto simp add: Atoi_def Let_def split: if_splits)
qed

lemma split_sign_length: "length (snd (split_sign s)) \<le> length s"
  by (cases s) auto

lemma Atoi_None:
  assumes "decimal_int s = None"
  shows "\<exists>e. Atoi s = Inl e"
proof (cases "0 < length s \<and> length s < 19")
  case False
  then have "Atoi s = ParseInt s" by (auto simp add: Atoi_def)
  then show ?thesis using ParseInt_None [OF assms] by simp
next
  case True
  obtain neg ds where sp: "split_sign s = (neg, ds)" by (cases "split_sign s")
  from True obtain c cs where s: "s = c # cs" by (cases s) auto
  have len: "length ds < 19" using split_sign_length [of s] sp True by simp
  show ?thesis
  proof (cases "list_all is_digit ds")
    case False
    then have "Atoi_loop 0 ds = Inl ErrSyntax" by (rule Atoi_loop_nondigit)
    with True sp show ?thesis unfolding s
      by (auto simp add: Atoi_def Let_def split: if_splits)
  next
    case digits: True
    show ?thesis
    proof (cases "ds = []")
      case True
      with sp \<open>0 < length s \<and> length s < 19\<close> show ?thesis unfolding s
        by (auto simp add: Atoi_def Let_def split: if_splits)
    next
      case False
      have "decimal_value ds < 2 ^ 63" using decimal_value_small [OF digits len] .
      moreover have "0 \<le> decimal_value ds" using digits by (rule decimal_value_nonneg)
      ultimately have "decimal_int s \<noteq> None"
        using sp False digits by (auto simp add: decimal_int_def Let_def)
      with assms show ?thesis by simp
    qed
  qed
qed

lemma Atoi_decimal_int:
  "(Atoi s = Inr n \<longleftrightarrow> decimal_int s = Some n)
   \<and> ((\<exists>e. Atoi s = Inl e) \<longleftrightarrow> decimal_int s = None)"
proof (cases "decimal_int s")
  case None
  then show ?thesis using Atoi_None [OF None] by auto
next
  case (Some m)
  then show ?thesis using Atoi_Some [OF Some] by auto
qed

section \<open>\<^verbatim>\<open>Itoa\<close> writes a notation that \<^verbatim>\<open>Atoi\<close> reads back, and that needs no escaping\<close>

lemma digit_char_digit:
  assumes "0 \<le> d" and "d \<le> 9"
  shows "is_digit (digit_char d) \<and> digit_value (digit_char d) = d"
proof -
  from assms have "d = 0 \<or> d = 1 \<or> d = 2 \<or> d = 3 \<or> d = 4 \<or> d = 5 \<or> d = 6 \<or> d = 7 \<or> d = 8 \<or> d = 9"
    by arith
  then show ?thesis
    by (elim disjE) (simp_all add: digit_char_def is_digit_def digit_value_def)
qed

lemma decimal_value_snoc:
  "decimal_value (ds @ [c]) = decimal_value ds * 10 + digit_value c"
  by (simp add: decimal_value_def)

lemma formatBits_digits:
  "0 \<le> u \<Longrightarrow> formatBits u \<noteq> [] \<and> list_all is_digit (formatBits u) \<and> decimal_value (formatBits u) = u"
proof (induction u rule: formatBits.induct)
  case (1 u)
  show ?case
  proof (cases "u < 10")
    case True
    with "1.prems" digit_char_digit [of u] show ?thesis
      by (subst (1 2 3) formatBits.simps) (simp add: decimal_value_def)
  next
    case False
    then have IH: "formatBits (u div 10) \<noteq> [] \<and> list_all is_digit (formatBits (u div 10))
        \<and> decimal_value (formatBits (u div 10)) = u div 10"
      using "1.IH" "1.prems" by simp
    have d: "is_digit (digit_char (u mod 10)) \<and> digit_value (digit_char (u mod 10)) = u mod 10"
      by (rule digit_char_digit) simp_all
    have eq: "formatBits u = formatBits (u div 10) @ [digit_char (u mod 10)]"
      using False by (subst formatBits.simps) simp
    show ?thesis
      unfolding eq using IH d by (simp add: decimal_value_snoc)
  qed
qed

lemma is_digit_not_sign: "is_digit c \<Longrightarrow> c \<noteq> CHR ''-'' \<and> c \<noteq> CHR ''+'' \<and> c \<noteq> CHR '' ''"
  by (auto simp add: is_digit_def)

lemma split_sign_digits:
  assumes "ds \<noteq> []" and "list_all is_digit ds"
  shows "split_sign ds = (False, ds)"
  using assms is_digit_not_sign by (cases ds) auto

lemma decimal_int_Itoa:
  assumes "- (2 ^ 63) \<le> n" and "n \<le> 2 ^ 63 - 1"
  shows "decimal_int (Itoa n) = Some n"
proof (cases "n < 0")
  case True
  then have "0 \<le> - n" by simp
  from formatBits_digits [OF this] True assms show ?thesis
    by (simp add: Itoa_def FormatInt_def decimal_int_def)
next
  case False
  then have "0 \<le> n" by simp
  from formatBits_digits [OF this] split_sign_digits [of "formatBits n"] False assms show ?thesis
    by (simp add: Itoa_def FormatInt_def decimal_int_def)
qed

lemma escape_byte_plain: "is_digit c \<or> c = CHR ''-'' \<Longrightarrow> escape_byte c = [c]"
  by (auto simp add: escape_byte_def shouldEscape_def is_alnum_def is_digit_def)

lemma QueryEscape_plain:
  "list_all (\<lambda>c. is_digit c \<or> c = CHR ''-'') s \<Longrightarrow> QueryEscape s = s"
  by (induction s) (simp_all add: QueryEscape_def escape_byte_plain)

lemma FormatInt_plain: "list_all (\<lambda>c. is_digit c \<or> c = CHR ''-'') (FormatInt n)"
proof -
  have *: "0 \<le> u \<Longrightarrow> list_all (\<lambda>c. is_digit c \<or> c = CHR ''-'') (formatBits u)" for u
    using formatBits_digits [of u] by (simp add: list_all_iff)
  show ?thesis
    by (cases "n < 0") (simp_all add: FormatInt_def *)
qed

lemma QueryEscape_FormatInt: "QueryEscape (FormatInt n) = FormatInt n"
  using FormatInt_plain by (rule QueryEscape_plain)

lemma QueryEscape_keys:
  "QueryEscape ''id'' = ''id''" "QueryEscape ''level'' = ''level''"
  "QueryEscape ''timestamp'' = ''timestamp''" "QueryEscape ''cookie'' = ''cookie''"
  "QueryEscape ''realIP'' = ''realIP''"
  by (simp_all add: QueryEscape_def escape_byte_def shouldEscape_def is_alnum_def)

lemma songParams_eq:
  "songParams config songID level ts realIP =
     [(''id'', [Itoa songID]), (''level'', [level]), (''timestamp'', [FormatInt ts]),
      (''cookie'', [Cookie config]), (''realIP'', [realIP])]"
  by (simp add: songParams_def)

lemma Values_Encode_songParams:
  "Values_Encode (songParams config songID level ts realIP) =
     ''cookie='' @ QueryEscape (Cookie config) @ ''&id='' @ Itoa songID @
     ''&level='' @ QueryEscape level @ ''&realIP='' @ QueryEscape realIP @
     ''&timestamp='' @ FormatInt ts"
  by (simp add: songParams_eq Values_Encode_def QueryEscape_keys QueryEscape_FormatInt Itoa_def)

section \<open>The decoder names a field as the key spells it\<close>

lemma of_char_upper_ascii:
  "(of_char (upper_ascii c) :: nat) =
     (if 97 \<le> (of_char c :: nat) \<and> (of_char c :: nat) \<le> 122 then of_char c - 32 else of_char c)"
proof (cases "97 \<le> (of_char c :: nat) \<and> (of_char c :: nat) \<le> 122")
  case True
  then have "(of_char c :: nat) - 32 < 256" by arith
  then have "((of_char c :: nat) - 32) mod 256 = of_char c - 32" by simp
  with True show ?thesis by (simp add: upper_ascii_def Let_def)
next
  case False
  then have "upper_ascii c = c" unfolding upper_ascii_def Let_def by (simp only: if_False)
  with False show ?thesis by (simp only: if_False)
qed

lemma upper_code_eq:
  fixes n m :: nat
  shows "(if 97 \<le> n \<and> n \<le> 122 then n - 32 else n) = (if 97 \<le> m \<and> m \<le> 122 then m - 32 else m)
    \<longleftrightarrow> (n = m \<or> ((65 \<le> n \<and> n \<le> 90 \<or> 97 \<le> n \<and> n \<le> 122) \<and>
                    (65 \<le> m \<and> m \<le> 90 \<or> 97 \<le> m \<and> m \<le> 122) \<and> (n + 32 = m \<or> m + 32 = n)))"
  by (cases "97 \<le> n \<and> n \<le> 122"; cases "97 \<le> m \<and> m \<le> 122") (simp_all, arith+)

lemma upper_ascii_same_letter: "upper_ascii a = upper_ascii c \<longleftrightarrow> same_letter a c"
proof -
  have "upper_ascii a = upper_ascii c \<longleftrightarrow>
      (of_char (upper_ascii a) :: nat) = of_char (upper_ascii c)"
    by (simp only: of_char_eq_iff)
  also have "\<dots> \<longleftrightarrow> ((of_char a :: nat) = of_char c \<or>
      ((65 \<le> (of_char a :: nat) \<and> (of_char a :: nat) \<le> 90 \<or> 97 \<le> (of_char a :: nat) \<and> (of_char a :: nat) \<le> 122) \<and>
       (65 \<le> (of_char c :: nat) \<and> (of_char c :: nat) \<le> 90 \<or> 97 \<le> (of_char c :: nat) \<and> (of_char c :: nat) \<le> 122) \<and>
       ((of_char a :: nat) + 32 = of_char c \<or> (of_char c :: nat) + 32 = of_char a)))"
    unfolding of_char_upper_ascii by (rule upper_code_eq)
  also have "\<dots> \<longleftrightarrow> same_letter a c"
    unfolding same_letter_def is_letter_def Let_def by (simp only: of_char_eq_iff)
  finally show ?thesis .
qed

lemma upper_ascii_lt_128:
  "(of_char a :: nat) < 128 \<Longrightarrow> (of_char (upper_ascii a) :: nat) < 128"
  unfolding of_char_upper_ascii by arith

lemma same_letter_ascii:
  assumes "(of_char a :: nat) < 128" and "same_letter a c"
  shows "(of_char c :: nat) < 128"
proof (cases "a = c")
  case True
  with assms show ?thesis by simp
next
  case False
  with assms(2) have "97 \<le> (of_char c :: nat) \<and> (of_char c :: nat) \<le> 122
      \<or> 65 \<le> (of_char c :: nat) \<and> (of_char c :: nat) \<le> 90"
    unfolding same_letter_def is_letter_def Let_def by blast
  then show ?thesis by arith
qed

lemma foldName_Nil_iff: "foldName key = [] \<longleftrightarrow> key = []"
  by (cases key) simp_all

lemma upper_ascii_k: "upper_ascii CHR ''k'' = CHR ''K''"
  by code_simp

lemma upper_ascii_s: "upper_ascii CHR ''s'' = CHR ''S''"
  by code_simp

lemma upper_K: "upper_ascii a = CHR ''K'' \<longleftrightarrow> same_letter a CHR ''k''"
  using upper_ascii_same_letter [of a "CHR ''k''"] by (simp only: upper_ascii_k)

lemma upper_S: "upper_ascii a = CHR ''S'' \<longleftrightarrow> same_letter a CHR ''s''"
  using upper_ascii_same_letter [of a "CHR ''s''"] by (simp only: upper_ascii_s)

lemma spells_Cons_Cons:
  "spells (a # ts) (c # cs) \<longleftrightarrow>
     (same_letter a c \<and> spells ts cs)
     \<or> (same_letter a CHR ''k'' \<and> c = CHR 0xE2 \<and> take 2 cs = [CHR 0x84, CHR 0xAA]
          \<and> spells ts (drop 2 cs))
     \<or> (same_letter a CHR ''s'' \<and> c = CHR 0xC5 \<and> take 1 cs = [CHR 0xBF]
          \<and> spells ts (drop 1 cs))"
  by simp

lemma spells_Cons_Nil: "\<not> spells (a # ts) []"
  by simp

lemma foldName_Cons_ascii:
  "(of_char c :: nat) < 128 \<Longrightarrow> foldName (c # cs) = upper_ascii c # foldName cs"
  by simp

lemma foldName_Cons_S:
  "\<not> (of_char c :: nat) < 128 \<Longrightarrow> c = CHR 0xC5 \<and> take 1 cs = [CHR 0xBF] \<Longrightarrow>
   foldName (c # cs) = CHR ''S'' # foldName (drop 1 cs)"
  by simp

lemma foldName_Cons_K:
  "\<not> (of_char c :: nat) < 128 \<Longrightarrow> \<not> (c = CHR 0xC5 \<and> take 1 cs = [CHR 0xBF]) \<Longrightarrow>
   c = CHR 0xE2 \<and> take 2 cs = [CHR 0x84, CHR 0xAA] \<Longrightarrow>
   foldName (c # cs) = CHR ''K'' # foldName (drop 2 cs)"
  by simp

lemma foldName_Cons_other:
  "\<not> (of_char c :: nat) < 128 \<Longrightarrow> \<not> (c = CHR 0xC5 \<and> take 1 cs = [CHR 0xBF]) \<Longrightarrow>
   \<not> (c = CHR 0xE2 \<and> take 2 cs = [CHR 0x84, CHR 0xAA]) \<Longrightarrow>
   foldName (c # cs) = c # foldName cs"
  by simp

lemma C5_E2_distinct: "CHR 0xC5 \<noteq> CHR 0xE2" "\<not> (of_char (CHR 0xC5) :: nat) < 128"
  "\<not> (of_char (CHR 0xE2) :: nat) < 128"
  by simp_all

lemma foldName_spells:
  "list_all (\<lambda>c. (of_char c :: nat) < 128) t \<Longrightarrow> foldName t = foldName key \<longleftrightarrow> spells t key"
proof (induction t arbitrary: key)
  case Nil
  then show ?case using foldName_Nil_iff [of key] by auto
next
  case (Cons a ts)
  then have a: "(of_char a :: nat) < 128" and ts: "list_all (\<lambda>c. (of_char c :: nat) < 128) ts"
    by simp_all
  note IH = Cons.IH [OF ts]
  have fa: "foldName (a # ts) = upper_ascii a # foldName ts"
    using a by (rule foldName_Cons_ascii)
  have ua: "(of_char (upper_ascii a) :: nat) < 128" using a by (rule upper_ascii_lt_128)
  show ?case
  proof (cases key)
    case Nil
    show ?thesis unfolding Nil fa by simp
  next
    case (Cons c cs)
    show ?thesis
    proof (cases "(of_char c :: nat) < 128")
      case True
      then have c: "c \<noteq> CHR 0xE2" "c \<noteq> CHR 0xC5" by auto
      show ?thesis
        unfolding Cons fa foldName_Cons_ascii [OF True] spells_Cons_Cons
        using c IH [of cs] by (simp add: upper_ascii_same_letter)
    next
      case False
      then have nsame: "\<not> same_letter a c" using same_letter_ascii [OF a] by blast
      have nupper: "upper_ascii a \<noteq> c" using ua False by auto
      show ?thesis
      proof (cases "c = CHR 0xC5 \<and> take 1 cs = [CHR 0xBF]")
        case True
        show ?thesis
          unfolding Cons fa foldName_Cons_S [OF False True] spells_Cons_Cons
          using True nsame IH [of "drop 1 cs"] by (simp add: upper_S)
      next
        case notS: False
        show ?thesis
        proof (cases "c = CHR 0xE2 \<and> take 2 cs = [CHR 0x84, CHR 0xAA]")
          case True
          show ?thesis
            unfolding Cons fa foldName_Cons_K [OF False notS True] spells_Cons_Cons
            using True nsame IH [of "drop 2 cs"] by (simp add: upper_K)
        next
          case notK: False
          show ?thesis
            unfolding Cons fa foldName_Cons_other [OF False notS notK] spells_Cons_Cons
            using notS notK nsame nupper by blast
        qed
      qed
    qed
  qed
qed

lemma find_unique:
  assumes "k \<in> set xs" and "P k" and "\<forall>t \<in> set xs. P t \<longrightarrow> t = k"
  shows "find P xs = Some k"
  using assms
proof (induction xs)
  case Nil
  then show ?case by simp
next
  case (Cons x xs)
  show ?case
  proof (cases "P x")
    case True
    with Cons.prems(3) have "x = k" by simp
    with True show ?thesis by simp
  next
    case False
    with Cons.prems(1,2) have "k \<in> set xs" by auto
    moreover from Cons.prems(3) have "\<forall>t \<in> set xs. P t \<longrightarrow> t = k" by simp
    ultimately have "find P xs = Some k" using Cons.IH Cons.prems(2) by blast
    with False show ?thesis by simp
  qed
qed

lemma find_pred_cong:
  "(\<And>x. x \<in> set xs \<Longrightarrow> P x = Q x) \<Longrightarrow> find P xs = find Q xs"
  by (induction xs) simp_all

lemma lookup_field_named:
  assumes ascii: "list_all (list_all (\<lambda>c. (of_char c :: nat) < 128)) tags"
    and inj: "distinct (map foldName tags)"
  shows "lookup_field tags key = field_named tags key"
proof -
  have "\<And>t. t \<in> set tags \<Longrightarrow> (foldName t = foldName key) = spells t key"
    using ascii foldName_spells by (simp add: list_all_iff)
  then have eq: "find (\<lambda>t. foldName t = foldName key) tags = find (\<lambda>t. spells t key) tags"
    by (rule find_pred_cong)
  show ?thesis
  proof (cases "key \<in> set tags")
    case False
    then show ?thesis by (simp add: lookup_field_def field_named_def eq)
  next
    case True
    have "inj_on foldName (set tags)" using inj by (simp add: distinct_map)
    then have "\<forall>t \<in> set tags. foldName t = foldName key \<longrightarrow> t = key"
      using True by (meson inj_onD)
    with True have "find (\<lambda>t. foldName t = foldName key) tags = Some key"
      by (intro find_unique) simp_all
    with True show ?thesis by (simp add: lookup_field_def field_named_def eq [symmetric])
  qed
qed

lemma SongData_tags_ascii: "list_all (list_all (\<lambda>c. (of_char c :: nat) < 128)) SongData_tags"
  by (simp add: SongData_tags_def)

lemma SongData_tags_fold_distinct: "distinct (map foldName SongData_tags)"
  by code_simp

lemma SongURLResponse_tags_ascii:
  "list_all (list_all (\<lambda>c. (of_char c :: nat) < 128)) SongURLResponse_tags"
  by (simp add: SongURLResponse_tags_def)

lemma SongURLResponse_tags_fold_distinct: "distinct (map foldName SongURLResponse_tags)"
  by code_simp

lemma lookup_field_SongData: "lookup_field SongData_tags key = field_named SongData_tags key"
  using SongData_tags_ascii SongData_tags_fold_distinct by (rule lookup_field_named)

lemma lookup_field_SongURLResponse:
  "lookup_field SongURLResponse_tags key = field_named SongURLResponse_tags key"
  using SongURLResponse_tags_ascii SongURLResponse_tags_fold_distinct by (rule lookup_field_named)

section \<open>Number literals: what the decoder accepts\<close>

lemma number_int64_Some_iff:
  "number_int64 n = Some v \<longleftrightarrow> int64_literal n \<and> v = integer_value n"
  by (cases n) (auto simp add: number_int64_def int64_literal_def integer_literal_def
      integer_value_def Let_def)

lemma number_int64_None_iff: "number_int64 n = None \<longleftrightarrow> \<not> int64_literal n"
  by (cases n) (auto simp add: number_int64_def int64_literal_def integer_literal_def
      integer_value_def Let_def)

lemma foldl_digits_real:
  "real_of_int (foldl (\<lambda>a d. a * 10 + d) w fr) =
     (real_of_int w + fraction_value fr) * 10 ^ length fr"
proof (induction fr arbitrary: w)
  case Nil
  then show ?case by simp
next
  case (Cons d ds)
  have "real_of_int (foldl (\<lambda>a d. a * 10 + d) (w * 10 + d) ds) =
      (real_of_int (w * 10 + d) + fraction_value ds) * 10 ^ length ds"
    by (rule Cons.IH)
  also have "\<dots> = (real_of_int w + (real_of_int d + fraction_value ds) / 10) * 10 ^ length (d # ds)"
    by (simp add: field_simps)
  finally show ?case by simp
qed

lemma number_magnitude_eq:
  "number_magnitude (Number neg w fr ex) =
     real_of_int (foldl (\<lambda>a d. a * 10 + d) w fr)
       * 10 powi ((case ex of None \<Rightarrow> 0 | Some x \<Rightarrow> x) - int (length fr))"
proof -
  let ?x = "case ex of None \<Rightarrow> 0 | Some x \<Rightarrow> x"
  have "(10::real) powi (?x - int (length fr)) = 10 powi ?x / 10 ^ length fr"
    by (simp add: power_int_diff)
  then show ?thesis
    by (simp add: number_magnitude_def foldl_digits_real)
qed

lemma number_overflows_iff: "number_overflows n \<longleftrightarrow> beyond_float64 n"
proof (cases n)
  case (Number neg w fr ex)
  let ?m = "foldl (\<lambda>a d. a * 10 + d) w fr"
  let ?e = "(case ex of None \<Rightarrow> 0 | Some x \<Rightarrow> x) - int (length fr)"
  let ?T = "2 ^ 1024 - 2 ^ 970 :: int"
  have mag: "number_magnitude n = real_of_int ?m * 10 powi ?e"
    unfolding Number by (rule number_magnitude_eq)
  have T: "(2 ^ 1024 - 2 ^ 970 :: real) = real_of_int ?T" by simp
  show ?thesis
  proof (cases "0 \<le> ?e")
    case True
    then have p: "(10::real) powi ?e = real_of_int (10 ^ nat ?e)"
      by (simp add: power_int_def)
    have "beyond_float64 n \<longleftrightarrow> real_of_int ?T \<le> real_of_int (?m * 10 ^ nat ?e)"
      unfolding beyond_float64_def mag p T by simp
    also have "\<dots> \<longleftrightarrow> ?T \<le> ?m * 10 ^ nat ?e"
      by (rule of_int_le_iff)
    finally show ?thesis
      using True by (simp add: number_overflows_def Number Let_def)
  next
    case False
    then have p: "(10::real) powi ?e = 1 / real_of_int (10 ^ nat (- ?e))"
      by (simp add: power_int_def field_simps)
    have pos: "0 < real_of_int (10 ^ nat (- ?e))" by simp
    have "beyond_float64 n \<longleftrightarrow> real_of_int ?T \<le> real_of_int ?m / real_of_int (10 ^ nat (- ?e))"
      unfolding beyond_float64_def mag p T by simp
    also have "\<dots> \<longleftrightarrow> real_of_int ?T * real_of_int (10 ^ nat (- ?e)) \<le> real_of_int ?m"
      using pos by (rule pos_le_divide_eq)
    also have "\<dots> \<longleftrightarrow> real_of_int (?T * 10 ^ nat (- ?e)) \<le> real_of_int ?m"
      by simp
    also have "\<dots> \<longleftrightarrow> ?T * 10 ^ nat (- ?e) \<le> ?m"
      by (rule of_int_le_iff)
    finally show ?thesis
      using False by (simp add: number_overflows_def Number Let_def)
  qed
qed

section \<open>An escaped query component reads back as the value\<close>

lemma unhex_upperhex:
  assumes "k < 16"
  shows "unhex (upperhex ! k) = Some k"
proof -
  from assms have "k = 0 \<or> k = 1 \<or> k = 2 \<or> k = 3 \<or> k = 4 \<or> k = 5 \<or> k = 6 \<or> k = 7 \<or> k = 8
      \<or> k = 9 \<or> k = 10 \<or> k = 11 \<or> k = 12 \<or> k = 13 \<or> k = 14 \<or> k = 15"
    by arith
  then show ?thesis
    by (elim disjE) (simp_all add: unhex_def upperhex_def)
qed

lemma of_char_lt_256: "(of_char c :: nat) < 256"
  by (cases c) (simp add: of_char_def horner_sum_bit_eq_take_bit split: if_splits)

lemma unescape_escape_byte:
  "QueryUnescape (escape_byte c @ rest) = map_option (Cons c) (QueryUnescape rest)"
proof (cases "c = CHR '' ''")
  case True
  then show ?thesis by (simp add: escape_byte_def)
next
  case False
  show ?thesis
  proof (cases "shouldEscape c")
    case True
    let ?n = "of_char c :: nat"
    have hi: "?n div 16 < 16" using of_char_lt_256 [of c] by arith
    have lo: "?n mod 16 < 16" by simp
    have "char_of (?n div 16 * 16 + ?n mod 16) = c" by simp
    with True False unhex_upperhex [OF hi] unhex_upperhex [OF lo] show ?thesis
      by (simp add: escape_byte_def)
  next
    case plain: False
    then have "c \<noteq> CHR ''%''" "c \<noteq> CHR ''+''"
      by (auto simp add: shouldEscape_def is_alnum_def)
    with False plain show ?thesis by (simp add: escape_byte_def)
  qed
qed

lemma QueryUnescape_QueryEscape: "QueryUnescape (QueryEscape s) = Some s"
  by (induction s) (simp_all add: QueryEscape_def unescape_escape_byte)

section \<open>Opaque members: decoded and written again\<close>

lemma those_None_iff: "those xs = None \<longleftrightarrow> None \<in> set xs"
  by (induction xs) (auto split: option.splits)

lemma those_Some_iff: "those xs = Some ys \<longleftrightarrow> xs = map Some ys"
proof (induction xs arbitrary: ys)
  case Nil
  then show ?case by auto
next
  case (Cons x xs)
  then show ?case by (cases x; cases ys) (auto split: option.splits)
qed

lemma map_of_map_store: "map_of (map_store m k v) = (map_of m)(k \<mapsto> v)"
  by (induction m k v rule: map_store.induct) (auto simp add: fun_upd_twist)

lemma fst_set_map_store: "fst ` set (map_store m k v) = insert k (fst ` set m)"
  by (induction m k v rule: map_store.induct) auto

lemma distinct_map_store: "distinct (map fst m) \<Longrightarrow> distinct (map fst (map_store m k v))"
proof (induction m k v rule: map_store.induct)
  case (1 key v)
  then show ?case by simp
next
  case (2 k x rest key v)
  then show ?case
    using fst_set_map_store [of rest key v] by (auto simp add: image_iff)
qed

lemma map_map_store:
  "map (\<lambda>(k, x). (k, g x)) (map_store m k v) = map_store (map (\<lambda>(k, x). (k, g x)) m) k (g v)"
  by (induction m k v rule: map_store.induct) auto

lemma map_store_all:
  "map (\<lambda>(k, x). (k, g x)) (store_all m0 kvs) =
     store_all (map (\<lambda>(k, x). (k, g x)) m0) (map (\<lambda>(k, x). (k, g x)) kvs)"
proof (induction kvs arbitrary: m0)
  case Nil
  then show ?case by simp
next
  case (Cons kv kvs)
  obtain k v where kv: "kv = (k, v)" by (cases kv)
  show ?case using Cons.IH [of "map_store m0 k v"] by (simp add: kv map_map_store)
qed

lemma distinct_store_all: "distinct (map fst m0) \<Longrightarrow> distinct (map fst (store_all m0 kvs))"
proof (induction kvs arbitrary: m0)
  case Nil
  then show ?case by simp
next
  case (Cons kv kvs)
  obtain k v where kv: "kv = (k, v)" by (cases kv)
  show ?case using Cons.IH [of "map_store m0 k v"] Cons.prems
    by (simp add: kv distinct_map_store)
qed

lemma map_of_store_all: "map_of (store_all m0 kvs) = map_of m0 ++ map_of (rev kvs)"
proof (induction kvs arbitrary: m0)
  case Nil
  then show ?case by simp
next
  case (Cons kv kvs)
  obtain k v where kv: "kv = (k, v)" by (cases kv)
  have step: "map_of (store_all (map_store m0 k v) kvs) = (map_of m0)(k \<mapsto> v) ++ map_of (rev kvs)"
    unfolding Cons.IH map_of_map_store ..
  have "(map_of m0)(k \<mapsto> v) ++ map_of (rev kvs) = map_of m0 ++ (map_of [(k, v)] ++ map_of (rev kvs))"
    by (simp only: map_of.simps fst_conv snd_conv map_add_assoc map_add_upd map_add_empty)
  with step show ?case by (simp only: kv foldl_Cons case_prod_conv rev.simps map_of_append)
qed

lemma fst_set_last_per_key: "fst ` set (last_per_key xs) = fst ` set xs"
  by (induction xs) auto

lemma distinct_last_per_key: "distinct (map fst (last_per_key xs))"
proof (induction xs)
  case Nil
  then show ?case by simp
next
  case (Cons x xs)
  then show ?case using fst_set_last_per_key [of xs] by (auto simp add: image_iff)
qed

lemma map_of_last_per_key: "map_of (last_per_key xs) = map_of (rev xs)"
proof (induction xs)
  case Nil
  then show ?case by simp
next
  case (Cons x xs)
  obtain k v where x: "x = (k, v)" by (cases x)
  show ?case
  proof (cases "k \<in> fst ` set xs")
    case True
    then have "map_of (rev xs) k \<noteq> None"
      by (simp add: map_of_eq_None_iff)
    then have "map_of [(k, v)] ++ map_of (rev xs) = map_of (rev xs)"
      by (intro ext) (simp add: map_add_def split: option.splits)
    with True Cons.IH show ?thesis by (simp add: x)
  next
    case False
    then have "map_of (rev xs) k = None"
      by (simp add: map_of_eq_None_iff)
    then have "map_of [(k, v)] ++ map_of (rev xs) = (map_of (rev xs))(k \<mapsto> v)"
      by (intro ext) (simp add: map_add_def split: option.splits)
    with False Cons.IH show ?thesis by (simp add: x)
  qed
qed

lemma sort_key_fst_unique:
  assumes "distinct (map fst xs)" and "distinct (map fst ys)" and "map_of xs = map_of ys"
  shows "sort_key fst xs = sort_key fst ys"
proof -
  have set: "set xs = set ys"
    using assms by (simp add: map_of_inject_set)
  have inj: "inj_on fst (set xs)" using assms(1) by (simp add: distinct_map)
  show ?thesis
  proof (rule map_sorted_distinct_set_unique [where f = fst])
    show "inj_on fst (set (sort_key fst xs) \<union> set (sort_key fst ys))"
      using inj set by simp
    show "sorted (map fst (sort_key fst xs))" by simp
    show "sorted (map fst (sort_key fst ys))" by simp
    show "distinct (map fst (sort_key fst xs))"
      using assms(1) by (simp add: distinct_map)
    show "distinct (map fst (sort_key fst ys))"
      using assms(2) by (simp add: distinct_map)
    show "set (sort_key fst xs) = set (sort_key fst ys)"
      using set by simp
  qed
qed

lemma sort_store_all_last_per_key:
  "sort_key fst (store_all [] kvs) = sort_key fst (last_per_key kvs)"
proof (rule sort_key_fst_unique)
  show "distinct (map fst (store_all [] kvs))" by (rule distinct_store_all) simp
  show "distinct (map fst (last_per_key kvs))" by (rule distinct_last_per_key)
  show "map_of (store_all [] kvs) = map_of (last_per_key kvs)"
    by (simp add: map_of_store_all map_of_last_per_key)
qed

lemma map_eq_map_list_all2: "map f xs = map g ys \<longleftrightarrow> list_all2 (\<lambda>x y. f x = g y) xs ys"
proof -
  have "map f xs = map g ys \<longleftrightarrow> list_all2 (=) (map f xs) (map g ys)"
    by (simp only: list.rel_eq)
  also have "\<dots> \<longleftrightarrow> list_all2 (\<lambda>x y. f x = g y) xs ys"
    by (simp only: list_all2_map1 list_all2_map2)
  finally show ?thesis .
qed

lemma those_map_None_iff: "those (map f xs) = None \<longleftrightarrow> (\<exists>x \<in> set xs. f x = None)"
  by (induction xs) (auto split: option.splits)

lemma number_float64_None_iff: "number_float64 n = None \<longleftrightarrow> beyond_float64 n"
  by (simp add: number_float64_def number_overflows_iff)

lemma number_float64_Some: "number_float64 n = Some f \<Longrightarrow> f = Nearest n"
  by (simp add: number_float64_def split: if_splits)

lemma valueInterface_None_iff: "valueInterface v = None \<longleftrightarrow> \<not> representable v"
proof (induction v rule: valueInterface.induct)
  case (5 xs)
  have "valueInterface (JArray xs) = None \<longleftrightarrow> (\<exists>x \<in> set xs. valueInterface x = None)"
    by (simp add: those_map_None_iff)
  also have "\<dots> \<longleftrightarrow> (\<exists>x \<in> set xs. \<not> representable x)"
    using 5 by blast
  finally show ?case by (simp add: list_all_iff)
next
  case (6 ms)
  have "valueInterface (JObject ms) = None \<longleftrightarrow> (\<exists>m \<in> set ms. valueInterface (snd m) = None)"
    by (simp add: those_map_None_iff split_beta)
  also have "\<dots> \<longleftrightarrow> (\<exists>m \<in> set ms. \<not> representable (snd m))"
    using 6 by (metis prod.collapse)
  finally show ?case by (simp add: list_all_iff)
qed (simp_all add: number_float64_None_iff)

lemma Marshal_valueInterface: "valueInterface v = Some x \<Longrightarrow> Marshal_iface x = opaque_doc v"
proof (induction v arbitrary: x rule: valueInterface.induct)
  case (3 n)
  then show ?case by (auto dest: number_float64_Some)
next
  case (5 xs)
  from 5(2) obtain ys where x: "x = ISlice ys" and ys: "those (map valueInterface xs) = Some ys"
    by auto
  from ys have "list_all2 (\<lambda>v y. valueInterface v = Some y) xs ys"
    by (simp only: those_Some_iff map_eq_map_list_all2)
  then have "list_all2 (\<lambda>v y. opaque_doc v = Marshal_iface y) xs ys"
    by (rule list.rel_mono_strong) (simp add: 5(1))
  then have "map opaque_doc xs = map Marshal_iface ys"
    by (simp only: map_eq_map_list_all2)
  then show ?case by (simp add: x)
next
  case (6 ms)
  let ?f = "\<lambda>m. map_option (Pair (fst m)) (valueInterface (snd m))"
  have f: "(\<lambda>(k, v). map_option (Pair k) (valueInterface v)) = ?f"
    by (simp add: fun_eq_iff split_beta)
  from 6(2) obtain kvs where x: "x = IMap (store_all [] kvs)" and kvs: "those (map ?f ms) = Some kvs"
    by (auto simp add: f)
  from kvs have "list_all2 (\<lambda>m kv. ?f m = Some kv) ms kvs"
    by (simp only: those_Some_iff map_eq_map_list_all2)
  then have "list_all2 (\<lambda>m kv. (fst m, opaque_doc (snd m)) = (fst kv, Marshal_iface (snd kv))) ms kvs"
  proof (rule list.rel_mono_strong)
    fix m kv
    assume m: "m \<in> set ms" and "?f m = Some kv"
    then obtain y where y: "valueInterface (snd m) = Some y" and kv: "kv = (fst m, y)"
      by auto
    have "Marshal_iface y = opaque_doc (snd m)"
      using 6(1) [of m "fst m" "snd m" y] m y by simp
    with kv show "(fst m, opaque_doc (snd m)) = (fst kv, Marshal_iface (snd kv))" by simp
  qed
  then have eq: "map (\<lambda>m. (fst m, opaque_doc (snd m))) ms = map (\<lambda>(k, v). (k, Marshal_iface v)) kvs"
    by (simp only: map_eq_map_list_all2 split_beta)
  have "Marshal_iface x =
      DObject (sort_key fst (store_all [] (map (\<lambda>(k, v). (k, Marshal_iface v)) kvs)))"
    by (simp add: x map_store_all)
  also have "\<dots> = DObject (sort_key fst (last_per_key (map (\<lambda>(k, v). (k, Marshal_iface v)) kvs)))"
    by (simp only: sort_store_all_last_per_key)
  finally show ?case by (simp add: eq)
qed auto

section \<open>\<^verbatim>\<open>Unmarshal\<close> fails exactly on the bodies that do not conform\<close>

lemma store_int_None_iff: "store_int old v = None \<longleftrightarrow> \<not> fits KInt v"
  by (cases v) (simp_all add: number_int64_None_iff)

lemma store_string_None_iff: "store_string old v = None \<longleftrightarrow> \<not> fits KString v"
  by (cases v) simp_all

lemma store_bool_None_iff: "store_bool old v = None \<longleftrightarrow> \<not> fits KBool v"
  by (cases v) simp_all

lemma store_float64_None_iff: "store_float64 old v = None \<longleftrightarrow> \<not> fits KFloat v"
  by (cases v) (simp_all add: number_float64_None_iff)

lemma fits_KAny: "fits KAny v = representable v"
  by (cases v) simp_all

lemma field_named_in_tags: "field_named tags key = Some t \<Longrightarrow> t \<in> set tags"
  by (auto simp add: field_named_def find_Some_iff)

lemma SongData_tags_cases:
  assumes "t \<in> set SongData_tags"
  shows "t = ''id'' \<or> t = ''url'' \<or> t = ''br'' \<or> t = ''size'' \<or> t = ''md5''
    \<or> t = ''code'' \<or> t = ''expi'' \<or> t = ''type'' \<or> t = ''gain'' \<or> t = ''peak''
    \<or> t = ''fee'' \<or> t = ''uf'' \<or> t = ''payed'' \<or> t = ''flag'' \<or> t = ''canExtend''
    \<or> t = ''freeTrialInfo'' \<or> t = ''level''"
  using assms by (simp add: SongData_tags_def)

lemma store_SongData_field_None_iff:
  "store_SongData_field e key v = None \<longleftrightarrow> \<not> SongData_member_fits (key, v)"
proof (cases "field_named SongData_tags key")
  case None
  then show ?thesis
    by (simp add: store_SongData_field_def SongData_member_fits_def lookup_field_SongData)
next
  case (Some t)
  then have "t \<in> set SongData_tags" by (rule field_named_in_tags)
  then show ?thesis
    by (elim disjE [OF SongData_tags_cases] disjE)
      (simp_all add: Some store_SongData_field_def SongData_member_fits_def SongData_kinds_def
        SongData_kind_def lookup_field_SongData
        store_int_None_iff store_string_None_iff store_bool_None_iff store_float64_None_iff
        valueInterface_None_iff fits_KAny)
qed

lemma store_SongData_members_None_iff:
  "store_SongData_members e ms = None \<longleftrightarrow> \<not> list_all SongData_member_fits ms"
proof (induction ms arbitrary: e)
  case Nil
  then show ?case by simp
next
  case (Cons m ms)
  obtain k v where m: "m = (k, v)" by (cases m)
  show ?case
  proof (cases "store_SongData_field e k v")
    case None
    then show ?thesis using store_SongData_field_None_iff [of e k v] by (simp add: m)
  next
    case (Some e')
    then have "SongData_member_fits (k, v)"
      using store_SongData_field_None_iff [of e k v] by auto
    then show ?thesis using Some Cons.IH [of e'] by (simp add: m)
  qed
qed

lemma store_SongData_None_iff: "store_SongData e v = None \<longleftrightarrow> \<not> conforms_SongData v"
  by (cases v) (simp_all add: store_SongData_members_None_iff)

lemma store_elements_None_iff:
  "store_elements slots js = None \<longleftrightarrow> \<not> list_all conforms_SongData js"
proof (induction js arbitrary: slots)
  case Nil
  then show ?case by simp
next
  case (Cons j js)
  let ?slot = "case slots of [] \<Rightarrow> zero_SongData | e # _ \<Rightarrow> e"
  show ?case
  proof (cases "store_SongData ?slot j")
    case None
    then show ?thesis using store_SongData_None_iff [of ?slot j] by simp
  next
    case (Some e')
    then have "conforms_SongData j" using store_SongData_None_iff [of ?slot j] by auto
    then show ?thesis using Some Cons.IH [of "tl slots"] by simp
  qed
qed

lemma store_Data_None_iff: "store_Data slots v = None \<longleftrightarrow> \<not> conforms_Data v"
  by (cases v) (simp_all add: store_elements_None_iff)

lemma SongURLResponse_tags_cases:
  "t \<in> set SongURLResponse_tags \<Longrightarrow> t = ''code'' \<or> t = ''data''"
  by (simp add: SongURLResponse_tags_def)

lemma store_SongURLResponse_field_None_iff:
  "store_SongURLResponse_field st key v = None \<longleftrightarrow> \<not> SongURLResponse_member_fits (key, v)"
proof (cases "field_named SongURLResponse_tags key")
  case None
  then show ?thesis
    by (simp add: store_SongURLResponse_field_def SongURLResponse_member_fits_def
        lookup_field_SongURLResponse)
next
  case (Some t)
  then have "t \<in> set SongURLResponse_tags" by (rule field_named_in_tags)
  then have "t = ''code'' \<or> t = ''data''" by (rule SongURLResponse_tags_cases)
  then show ?thesis
    by (elim disjE)
      (simp_all add: Some store_SongURLResponse_field_def SongURLResponse_member_fits_def
        lookup_field_SongURLResponse store_int_None_iff store_Data_None_iff)
qed

lemma store_SongURLResponse_members_None_iff:
  "store_SongURLResponse_members st ms = None \<longleftrightarrow> \<not> list_all SongURLResponse_member_fits ms"
proof (induction ms arbitrary: st)
  case Nil
  then show ?case by simp
next
  case (Cons m ms)
  obtain k v where m: "m = (k, v)" by (cases m)
  show ?case
  proof (cases "store_SongURLResponse_field st k v")
    case None
    then show ?thesis using store_SongURLResponse_field_None_iff [of st k v] by (simp add: m)
  next
    case (Some st')
    then have "SongURLResponse_member_fits (k, v)"
      using store_SongURLResponse_field_None_iff [of st k v] by auto
    then show ?thesis using Some Cons.IH [of st'] by (simp add: m)
  qed
qed

lemma store_SongURLResponse_None_iff:
  "store_SongURLResponse r v = None \<longleftrightarrow> \<not> conforms_SongURLResponse v"
  by (cases v) (simp_all add: store_SongURLResponse_members_None_iff)

lemma Unmarshal_error_iff:
  "(\<exists>err. Unmarshal b = Inl err) \<longleftrightarrow>
   (b = Malformed \<or> (\<exists>j. b = Document j \<and> \<not> conforms_SongURLResponse j))"
proof (cases b)
  case Malformed
  then show ?thesis by (simp add: Unmarshal_def)
next
  case (Document j)
  show ?thesis
    using store_SongURLResponse_None_iff [of zero_SongURLResponse j]
    by (cases "store_SongURLResponse zero_SongURLResponse j") (simp_all add: Unmarshal_def Document)
qed

section \<open>What is written is what the received members give\<close>

lemma store_int_Some_iff:
  "store_int old v = Some x \<longleftrightarrow> fits KInt v \<and> put KInt v (DInt old) = DInt x"
  by (cases v) (auto simp add: number_int64_Some_iff)

lemma store_string_Some_iff:
  "store_string old v = Some x \<longleftrightarrow> fits KString v \<and> put KString v (DString old) = DString x"
  by (cases v) auto

lemma store_bool_Some_iff:
  "store_bool old v = Some x \<longleftrightarrow> fits KBool v \<and> put KBool v (DBool old) = DBool x"
  by (cases v) auto

lemma store_float64_Some_iff:
  "store_float64 old v = Some x \<longleftrightarrow> fits KFloat v \<and> put KFloat v (DFloat old) = DFloat x"
  by (cases v) (auto simp add: number_float64_def number_overflows_iff)

lemma store_SongData_field_put:
  assumes "store_SongData_field e key v = Some e1"
  shows "members_of (Marshal_SongData e1) =
     map (\<lambda>m. (fst m, if field_named SongData_tags key = Some (fst m)
                       then put (SongData_kind (fst m)) v (snd m) else snd m))
       (members_of (Marshal_SongData e))"
proof (cases "field_named SongData_tags key")
  case None
  with assms have "e1 = e"
    by (simp add: store_SongData_field_def lookup_field_SongData)
  with None show ?thesis by simp
next
  case (Some t)
  then have "t \<in> set SongData_tags" by (rule field_named_in_tags)
  then show ?thesis
    using assms
    by (elim disjE [OF SongData_tags_cases] disjE)
      (auto simp add: Some store_SongData_field_def lookup_field_SongData Marshal_SongData_def
        SongData_kind_def SongData_kinds_def store_int_Some_iff store_string_Some_iff
        store_bool_Some_iff store_float64_Some_iff intro: Marshal_valueInterface)
qed

lemma named_values_Nil: "named_values tags t [] = []"
  by (simp add: named_values_def)

lemma named_values_Cons:
  "named_values tags t ((k, v) # ms) =
     (if field_named tags k = Some t then v # named_values tags t ms else named_values tags t ms)"
  by (simp add: named_values_def)

lemma put_values_Nil: "put_values k [] old = old"
  by (simp add: put_values_def)

lemma put_values_Cons: "put_values k (v # vs) old = put_values k vs (put k v old)"
  by (simp add: put_values_def)

lemma store_SongData_members_put:
  "store_SongData_members e ms = Some e' \<Longrightarrow>
   members_of (Marshal_SongData e') =
     map (\<lambda>m. (fst m, put_values (SongData_kind (fst m)) (named_values SongData_tags (fst m) ms) (snd m)))
       (members_of (Marshal_SongData e))"
proof (induction ms arbitrary: e)
  case Nil
  then show ?case by (simp add: named_values_Nil put_values_Nil)
next
  case (Cons m ms)
  obtain k v where m: "m = (k, v)" by (cases m)
  from Cons.prems obtain e1 where f: "store_SongData_field e k v = Some e1"
    and rest: "store_SongData_members e1 ms = Some e'"
    by (auto simp add: m split: option.splits)
  show ?case
    unfolding Cons.IH [OF rest] store_SongData_field_put [OF f] m
    by (simp add: named_values_Cons put_values_Cons)
qed

lemma store_SongData_put:
  "store_SongData e j = Some e' \<Longrightarrow>
   members_of (Marshal_SongData e') = put_entry (members_of (Marshal_SongData e)) j"
proof (cases j)
  case JNull
  assume "store_SongData e j = Some e'"
  with JNull show ?thesis by (simp add: put_entry_def named_values_Nil put_values_Nil)
next
  case (JObject ms)
  assume "store_SongData e j = Some e'"
  with JObject show ?thesis by (simp add: put_entry_def store_SongData_members_put)
qed simp_all

lemma Marshal_SongData_members: "Marshal_SongData e = DObject (members_of (Marshal_SongData e))"
  by (simp add: Marshal_SongData_def)

lemma zero_SongData_members: "members_of (Marshal_SongData zero_SongData) = zero_entry"
  by (simp add: Marshal_SongData_def zero_SongData_def zero_entry_def SongData_tags_def
      SongData_kind_def SongData_kinds_def)

lemma expected_entry_put: "expected_entry j = DObject (put_entry zero_entry j)"
  by (simp add: expected_entry_def put_entry_def zero_entry_def written_value_def o_def)

lemma store_elements_put:
  "store_elements slots js = Some es \<Longrightarrow> map entry_of es = put_entries (map entry_of slots) js"
proof (induction js arbitrary: slots es)
  case Nil
  then show ?case by simp
next
  case (Cons j js)
  let ?slot = "case slots of [] \<Rightarrow> zero_SongData | e # _ \<Rightarrow> e"
  from Cons.prems obtain e' es' where first: "store_SongData ?slot j = Some e'"
    and rest: "store_elements (tl slots) js = Some es'" and es: "es = e' # es'"
    by (auto split: option.splits)
  have slot: "(case map entry_of slots of [] \<Rightarrow> zero_entry | e # _ \<Rightarrow> e) = entry_of ?slot"
    by (cases slots) (simp_all add: zero_SongData_members)
  show ?case
    using Cons.IH [OF rest] store_SongData_put [OF first]
    by (simp add: es slot map_tl)
qed

lemma map_Marshal_SongData: "map Marshal_SongData es = map DObject (map entry_of es)"
  by (induction es) (simp_all add: Marshal_SongData_members [symmetric])

lemma store_Data_put:
  assumes "store_Data slots v = Some (d, slots')"
  shows "put_data (w, map entry_of slots) v = (Marshal_Data d, map entry_of slots')"
proof (cases v)
  case JNull
  with assms show ?thesis by (auto simp add: Marshal_Data_def)
next
  case (JArray js)
  show ?thesis
  proof (cases "js = []")
    case True
    with assms JArray show ?thesis by (auto simp add: Marshal_Data_def)
  next
    case False
    with assms JArray obtain es where es: "store_elements slots js = Some es"
      and d: "d = Some es" and slots': "slots' = es @ drop (length js) slots"
      by auto
    from store_elements_put [OF es] False show ?thesis
      by (simp add: JArray d slots' Marshal_Data_def map_Marshal_SongData drop_map)
  qed
qed (use assms in simp_all)

lemma store_SongURLResponse_field_put:
  assumes "store_SongURLResponse_field st key v = Some st'"
  shows "DInt (SongURLResponse.Code (fst st')) =
           (if field_named SongURLResponse_tags key = Some ''code''
            then put KInt v (DInt (SongURLResponse.Code (fst st)))
            else DInt (SongURLResponse.Code (fst st)))"
    and "(Marshal_Data (Data (fst st')), map entry_of (snd st')) =
           (if field_named SongURLResponse_tags key = Some ''data''
            then put_data (Marshal_Data (Data (fst st)), map entry_of (snd st)) v
            else (Marshal_Data (Data (fst st)), map entry_of (snd st)))"
proof -
  show "DInt (SongURLResponse.Code (fst st')) =
           (if field_named SongURLResponse_tags key = Some ''code''
            then put KInt v (DInt (SongURLResponse.Code (fst st)))
            else DInt (SongURLResponse.Code (fst st)))"
  proof (cases "field_named SongURLResponse_tags key")
    case None
    with assms show ?thesis
      by (simp add: store_SongURLResponse_field_def lookup_field_SongURLResponse)
  next
    case (Some t)
    then have "t \<in> set SongURLResponse_tags" by (rule field_named_in_tags)
    then have "t = ''code'' \<or> t = ''data''" by (rule SongURLResponse_tags_cases)
    then show ?thesis
      using assms
      by (elim disjE)
        (auto simp add: Some store_SongURLResponse_field_def lookup_field_SongURLResponse
          store_int_Some_iff)
  qed
  show "(Marshal_Data (Data (fst st')), map entry_of (snd st')) =
           (if field_named SongURLResponse_tags key = Some ''data''
            then put_data (Marshal_Data (Data (fst st)), map entry_of (snd st)) v
            else (Marshal_Data (Data (fst st)), map entry_of (snd st)))"
  proof (cases "field_named SongURLResponse_tags key")
    case None
    with assms show ?thesis
      by (simp add: store_SongURLResponse_field_def lookup_field_SongURLResponse)
  next
    case (Some t)
    then have "t \<in> set SongURLResponse_tags" by (rule field_named_in_tags)
    then have "t = ''code'' \<or> t = ''data''" by (rule SongURLResponse_tags_cases)
    then show ?thesis
    proof
      assume "t = ''code''"
      with assms Some show ?thesis
        by (auto simp add: store_SongURLResponse_field_def lookup_field_SongURLResponse)
    next
      assume t: "t = ''data''"
      with assms Some obtain d slots where sd: "store_Data (snd st) v = Some (d, slots)"
        and st': "st' = ((fst st)\<lparr>Data := d\<rparr>, slots)"
        by (auto simp add: store_SongURLResponse_field_def lookup_field_SongURLResponse)
      from store_Data_put [OF sd, of "Marshal_Data (Data (fst st))"] show ?thesis
        by (simp add: Some t st')
    qed
  qed
qed

lemma store_SongURLResponse_members_put:
  "store_SongURLResponse_members st ms = Some st' \<Longrightarrow>
   DInt (SongURLResponse.Code (fst st')) =
     put_values KInt (named_values SongURLResponse_tags ''code'' ms) (DInt (SongURLResponse.Code (fst st)))
   \<and> (Marshal_Data (Data (fst st')), map entry_of (snd st')) =
     foldl put_data (Marshal_Data (Data (fst st)), map entry_of (snd st))
       (named_values SongURLResponse_tags ''data'' ms)"
proof (induction ms arbitrary: st)
  case Nil
  then show ?case by (simp add: named_values_Nil put_values_Nil)
next
  case (Cons m ms)
  obtain k v where m: "m = (k, v)" by (cases m)
  from Cons.prems obtain st1 where f: "store_SongURLResponse_field st k v = Some st1"
    and rest: "store_SongURLResponse_members st1 ms = Some st'"
    by (auto simp add: m split: option.splits)
  note IH = Cons.IH [OF rest]
  note first = store_SongURLResponse_field_put [OF f]
  show ?case
  proof
    show "DInt (SongURLResponse.Code (fst st')) =
      put_values KInt (named_values SongURLResponse_tags ''code'' (m # ms))
        (DInt (SongURLResponse.Code (fst st)))"
      using IH first(1) by (simp add: m named_values_Cons put_values_Cons)
    show "(Marshal_Data (Data (fst st')), map entry_of (snd st')) =
      foldl put_data (Marshal_Data (Data (fst st)), map entry_of (snd st))
        (named_values SongURLResponse_tags ''data'' (m # ms))"
      using IH first(2) by (simp add: m named_values_Cons)
  qed
qed

lemma Unmarshal_object_written:
  assumes "Unmarshal (Document (JObject ms)) = Inr r"
  shows "Marshal_SongURLResponse r =
     DObject [(''code'', written_value KInt (named_values SongURLResponse_tags ''code'' ms)),
              (''data'', written_data (named_values SongURLResponse_tags ''data'' ms))]"
proof -
  from assms obtain st' where st: "store_SongURLResponse_members (zero_SongURLResponse, []) ms = Some st'"
    and r: "r = fst st'"
    by (auto simp add: Unmarshal_def split: option.splits)
  note put = store_SongURLResponse_members_put [OF st]
  from put have code: "DInt (SongURLResponse.Code r) =
      written_value KInt (named_values SongURLResponse_tags ''code'' ms)"
    by (simp add: r zero_SongURLResponse_def written_value_def)
  from put have "(Marshal_Data (Data r), map entry_of (snd st')) =
      foldl put_data (DNull, []) (named_values SongURLResponse_tags ''data'' ms)"
    by (simp add: r zero_SongURLResponse_def Marshal_Data_def)
  then have data: "Marshal_Data (Data r) = written_data (named_values SongURLResponse_tags ''data'' ms)"
    unfolding written_data_def by (metis fst_conv)
  have "Marshal_SongURLResponse r =
      DObject [(''code'', DInt (SongURLResponse.Code r)), (''data'', Marshal_Data (Data r))]"
    by (simp add: Marshal_SongURLResponse_def Marshal_Data_def)
  then show ?thesis by (simp only: code data)
qed

lemma Unmarshal_code_200_object:
  assumes "Unmarshal b = Inr r" and "SongURLResponse.Code r = 200"
  shows "\<exists>ms. b = Document (JObject ms)"
proof (cases b)
  case Malformed
  with assms show ?thesis by (simp add: Unmarshal_def)
next
  case (Document j)
  with assms show ?thesis
    by (cases j) (auto simp add: Unmarshal_def zero_SongURLResponse_def split: option.splits)
qed

lemma put_entries_fresh: "put_entries [] js = map (put_entry zero_entry) js"
  by (induction js) simp_all

lemma written_data_Nil: "written_data [] = DNull"
  by (simp add: written_data_def)

lemma written_data_null: "written_data [JNull] = DNull"
  by (simp add: written_data_def)

lemma written_data_once: "written_data [JArray js] = DArray (map expected_entry js)"
  by (simp add: written_data_def put_entries_fresh expected_entry_put o_def)

lemma written_value_Nil: "written_value k [] = zero_doc k"
  by (simp add: written_value_def put_values_def)

lemma written_value_once: "written_value k [v] = put k v (zero_doc k)"
  by (simp add: written_value_def put_values_def)

section \<open>The example bodies, decoded and written\<close>

lemma ex_song_decodes: "Unmarshal (Document ex_song) = Inr ex_song_decoded"
  by (simp add: Unmarshal_def ex_song_def ex_song_decoded_def zero_SongURLResponse_def
      store_SongURLResponse_field_def store_SongData_field_def lookup_field_def
      SongURLResponse_tags_def SongData_tags_def number_int64_def zero_SongData_def)

lemma ex_song_written:
  "Marshal_SongURLResponse ex_song_decoded =
     DObject
       [(''code'', DInt 200),
        (''data'', DArray
           [DObject
              [(''id'', DInt 5), (''url'', DString ''http://m/5.mp3''), (''br'', DInt 0),
               (''size'', DInt 0), (''md5'', DString []), (''code'', DInt 0), (''expi'', DInt 0),
               (''type'', DString []), (''gain'', DFloat zero_float64),
               (''peak'', DFloat zero_float64), (''fee'', DInt 0), (''uf'', DNull),
               (''payed'', DInt 0), (''flag'', DInt 0), (''canExtend'', DBool False),
               (''freeTrialInfo'', DNull), (''level'', DString [])]])]"
  by (simp add: Marshal_SongURLResponse_def Marshal_SongData_def ex_song_decoded_def zero_SongData_def)

lemma ex_no_data_decodes:
  "Unmarshal (Document ex_no_data) = Inr \<lparr> SongURLResponse.Code = 200, Data = None \<rparr>"
  by (simp add: Unmarshal_def ex_no_data_def zero_SongURLResponse_def
      store_SongURLResponse_field_def lookup_field_def SongURLResponse_tags_def number_int64_def)

lemma ex_repeated_data_decodes:
  "Unmarshal (Document ex_repeated_data) =
     Inr \<lparr> SongURLResponse.Code = 200, Data = Some [zero_SongData \<lparr> ID := 1, URL := ''u'' \<rparr>] \<rparr>"
  by (simp add: Unmarshal_def ex_repeated_data_def zero_SongURLResponse_def
      store_SongURLResponse_field_def store_SongData_field_def lookup_field_def
      SongURLResponse_tags_def SongData_tags_def number_int64_def zero_SongData_def)

lemma ex_song_data:
  "written_data (named_values SongURLResponse_tags ''data'' (json_members_of ex_song)) =
     DArray
       [DObject
          [(''id'', DInt 5), (''url'', DString ''http://m/5.mp3''), (''br'', DInt 0),
           (''size'', DInt 0), (''md5'', DString []), (''code'', DInt 0), (''expi'', DInt 0),
           (''type'', DString []), (''gain'', DFloat zero_float64),
           (''peak'', DFloat zero_float64), (''fee'', DInt 0), (''uf'', DNull),
           (''payed'', DInt 0), (''flag'', DInt 0), (''canExtend'', DBool False),
           (''freeTrialInfo'', DNull), (''level'', DString [])]]"
  by code_simp

lemma ex_no_data_data:
  "written_data (named_values SongURLResponse_tags ''data'' (json_members_of ex_no_data)) = DNull"
  by code_simp

lemma ex_repeated_data_data:
  "written_data (named_values SongURLResponse_tags ''data'' (json_members_of ex_repeated_data)) =
     DArray
       [DObject
          [(''id'', DInt 1), (''url'', DString ''u''), (''br'', DInt 0),
           (''size'', DInt 0), (''md5'', DString []), (''code'', DInt 0), (''expi'', DInt 0),
           (''type'', DString []), (''gain'', DFloat zero_float64),
           (''peak'', DFloat zero_float64), (''fee'', DInt 0), (''uf'', DNull),
           (''payed'', DInt 0), (''flag'', DInt 0), (''canExtend'', DBool False),
           (''freeTrialInfo'', DNull), (''level'', DString [])]]"
  by code_simp

lemma ex_code_as_string_mismatch: "\<not> conforms_SongURLResponse ex_code_as_string"
  by code_simp

section \<open>Configuration\<close>

lemma ex_env_loads:
  "Getenv (godotenv_Load None ex_env) ''NETEASE_COOKIE'' = ''MUSIC_U=abc''"
  "Getenv (godotenv_Load None ex_env) ''PORT'' = ''9000''"
  "Getenv (godotenv_Load None ex_env) ''REAL_IP'' = []"
  "Getenv (godotenv_Load None ex_env) ''LEVEL'' = []"
  "Getenv (godotenv_Load None ex_env) ''NETEASE_MUSIC_API'' = []"
  by (simp_all add: Getenv_def godotenv_Load_def ex_env_def)

text \<open>
  Claim C7. Let \<open>e\<close> be the environment in effect when the configuration is resolved
  (the process environment, completed from the \<^verbatim>\<open>.env\<close> file when there is one). If
  \<^verbatim>\<open>NETEASE_COOKIE\<close> is empty or unset in \<open>e\<close>, the process exits with the fatal message
  during \<^verbatim>\<open>init\<close>, so \<^verbatim>\<open>main\<close> never runs, no listener is bound and no request is served;
  in particular this happens when the variable is unset and there is no \<^verbatim>\<open>.env\<close> file.
  Otherwise \<^verbatim>\<open>main\<close> runs the server on \<^verbatim>\<open>":" + Port\<close> with the configuration whose cookie
  is the variable's value and whose other settings are the values of \<^verbatim>\<open>PORT\<close>,
  \<^verbatim>\<open>REAL_IP\<close>, \<^verbatim>\<open>LEVEL\<close> and \<^verbatim>\<open>NETEASE_MUSIC_API\<close>, each replaced by its default
  (\<^verbatim>\<open>8080\<close>, \<^verbatim>\<open>116.25.146.177\<close>, \<^verbatim>\<open>exhigh\<close>, \<^verbatim>\<open>https://example.com\<close>) when empty or unset.
\<close>

theorem startup_requires_cookie:
  "(Getenv (godotenv_Load dotenv env) ''NETEASE_COOKIE'' = [] \<longrightarrow>
      program dotenv env =
        Exited ''NETEASE_COOKIE is required in environment variables or .env file'')
   \<and> (env ''NETEASE_COOKIE'' = None \<and> dotenv = None \<longrightarrow>
      program dotenv env =
        Exited ''NETEASE_COOKIE is required in environment variables or .env file'')
   \<and> (Getenv (godotenv_Load dotenv env) ''NETEASE_COOKIE'' \<noteq> [] \<longrightarrow>
      (let e = godotenv_Load dotenv env;
           config =
             \<lparr> Port = (if Getenv e ''PORT'' = [] then ''8080'' else Getenv e ''PORT''),
               Cookie = Getenv e ''NETEASE_COOKIE'',
               RealIP = (if Getenv e ''REAL_IP'' = [] then ''116.25.146.177''
                         else Getenv e ''REAL_IP''),
               Config.Level = (if Getenv e ''LEVEL'' = [] then ''exhigh'' else Getenv e ''LEVEL''),
               NeteaseMusicAPI = (if Getenv e ''NETEASE_MUSIC_API'' = [] then ''https://example.com''
                                  else Getenv e ''NETEASE_MUSIC_API'') \<rparr>
       in program dotenv env = Run (CHR '':'' # Port config) config))"
  by (auto simp add: program_def init_def checkConfig_def loadConfig_def getEnvOrDefault_def Let_def
      godotenv_Load_def Getenv_def)

theorem startup_requires_cookie_witness:
  "program None Map.empty =
     Exited ''NETEASE_COOKIE is required in environment variables or .env file''
   \<and> program None ex_env =
       Run '':9000''
         \<lparr> Port = ''9000'', Cookie = ''MUSIC_U=abc'', RealIP = ''116.25.146.177'',
           Config.Level = ''exhigh'', NeteaseMusicAPI = ''https://example.com'' \<rparr>"
  using startup_requires_cookie [of None Map.empty] startup_requires_cookie [of None ex_env]
  by (simp add: ex_env_loads Let_def)

lemma Getenv_empty_unset: "Getenv (env(key \<mapsto> [])) k = Getenv (env(key := None)) k"
  by (simp add: Getenv_def)

lemma getEnvOrDefault_empty_unset:
  "getEnvOrDefault (env(key \<mapsto> [])) k d = getEnvOrDefault (env(key := None)) k d"
  by (simp add: getEnvOrDefault_def Getenv_empty_unset)

lemma loadConfig_empty_unset: "loadConfig (env(key \<mapsto> [])) = loadConfig (env(key := None))"
  by (simp add: loadConfig_def getEnvOrDefault_empty_unset)

lemma Getenv_Load_empty: "Getenv (godotenv_Load dotenv (env(key \<mapsto> []))) key = []"
  by (cases dotenv) (simp_all add: godotenv_Load_def Getenv_def)

text \<open>
  Claim C9. When the configuration is resolved (lines 62-73), a variable that is set to
  the empty string and the same variable unset are the same: \<^verbatim>\<open>getEnvOrDefault\<close>
  returns the default in both cases, so the resolved configuration is the same and so
  is the outcome of the check of the cookie. In particular an empty \<^verbatim>\<open>PORT\<close> gives
  \<^verbatim>\<open>8080\<close> and an empty \<^verbatim>\<open>NETEASE_COOKIE\<close> is fatal, as an unset one is. The same holds
  for the whole of \<^verbatim>\<open>init\<close> when there is no \<^verbatim>\<open>.env\<close> file; and whatever the file
  holds, a variable that the process environment sets to the empty string resolves to
  its default, and an empty \<^verbatim>\<open>NETEASE_COOKIE\<close> is fatal. (A variable that the process
  environment does not set at all is first given the file's value, when the file has
  one: it is then no longer unset when the configuration is resolved.)
\<close>

theorem empty_value_as_unset:
  "getEnvOrDefault (env(key \<mapsto> [])) key defaultValue = defaultValue
   \<and> getEnvOrDefault (env(key := None)) key defaultValue = defaultValue
   \<and> loadConfig (env(key \<mapsto> [])) = loadConfig (env(key := None))
   \<and> checkConfig (env(key \<mapsto> [])) = checkConfig (env(key := None))
   \<and> Port (loadConfig (env(''PORT'' \<mapsto> []))) = ''8080''
   \<and> checkConfig (env(''NETEASE_COOKIE'' \<mapsto> [])) =
       Fatal ''NETEASE_COOKIE is required in environment variables or .env file''
   \<and> checkConfig (env(''NETEASE_COOKIE'' := None)) =
       Fatal ''NETEASE_COOKIE is required in environment variables or .env file''
   \<and> init None (env(key \<mapsto> [])) = init None (env(key := None))
   \<and> Port (loadConfig (godotenv_Load dotenv (env(''PORT'' \<mapsto> [])))) = ''8080''
   \<and> init dotenv (env(''NETEASE_COOKIE'' \<mapsto> [])) =
       Fatal ''NETEASE_COOKIE is required in environment variables or .env file''"
proof (intro conjI)
  show "getEnvOrDefault (env(key \<mapsto> [])) key defaultValue = defaultValue"
    by (simp add: getEnvOrDefault_def Getenv_def)
  show "getEnvOrDefault (env(key := None)) key defaultValue = defaultValue"
    by (simp add: getEnvOrDefault_def Getenv_def)
  show "loadConfig (env(key \<mapsto> [])) = loadConfig (env(key := None))"
    by (rule loadConfig_empty_unset)
  show "checkConfig (env(key \<mapsto> [])) = checkConfig (env(key := None))"
    by (simp add: checkConfig_def loadConfig_empty_unset)
  show "Port (loadConfig (env(''PORT'' \<mapsto> []))) = ''8080''"
    by (simp add: loadConfig_def getEnvOrDefault_def Getenv_def)
  show "checkConfig (env(''NETEASE_COOKIE'' \<mapsto> [])) =
       Fatal ''NETEASE_COOKIE is required in environment variables or .env file''"
    by (simp add: checkConfig_def loadConfig_def getEnvOrDefault_def Getenv_def)
  show "checkConfig (env(''NETEASE_COOKIE'' := None)) =
       Fatal ''NETEASE_COOKIE is required in environment variables or .env file''"
    by (simp add: checkConfig_def loadConfig_def getEnvOrDefault_def Getenv_def)
  show "init None (env(key \<mapsto> [])) = init None (env(key := None))"
    by (simp add: init_def godotenv_Load_def checkConfig_def loadConfig_empty_unset)
  show "Port (loadConfig (godotenv_Load dotenv (env(''PORT'' \<mapsto> [])))) = ''8080''"
    by (simp add: loadConfig_def getEnvOrDefault_def Getenv_Load_empty)
  show "init dotenv (env(''NETEASE_COOKIE'' \<mapsto> [])) =
       Fatal ''NETEASE_COOKIE is required in environment variables or .env file''"
    by (simp add: init_def checkConfig_def loadConfig_def getEnvOrDefault_def Getenv_Load_empty)
qed

section \<open>The health check\<close>

text \<open>
  Claim C8, as stated, fails: two successive calls in the same second, here at
  1.000000000 s and 1.999999999 s after the epoch, return the same timestamp 1.
\<close>

theorem health_timestamp_repeats:
  "(1000000000 :: int) < 1999999999
   \<and> doc_member (content (health 1000000000)) ''timestamp'' = Some (DInt 1)
   \<and> doc_member (content (health 1999999999)) ''timestamp'' = Some (DInt 1)
   \<and> \<not> Unix 1000000000 < Unix 1999999999"
  by (simp add: health_def c_JSON_def Marshal_H_def Unix_def)

text \<open>
  Claim C8, amended. Every call of the handler of \<^verbatim>\<open>GET /health\<close> returns HTTP 200 with status \<^verbatim>\<open>ok\<close>
  and, as timestamp, the clock's reading in whole seconds. Across two successive calls
  whose clock readings do not decrease the timestamp does not decrease, and it
  increases strictly when the readings are at least one second apart.
\<close>

theorem health_ok:
  "status (health now) = 200
   \<and> doc_member (content (health now)) ''status'' = Some (DString ''ok'')
   \<and> doc_member (content (health now)) ''timestamp'' = Some (DInt (Unix now))
   \<and> Unix now = now div 1000000000
   \<and> (t1 \<le> t2 \<longrightarrow> Unix t1 \<le> Unix t2)
   \<and> (t1 + 1000000000 \<le> t2 \<longrightarrow> Unix t1 < Unix t2)"
  by (auto simp add: health_def c_JSON_def Marshal_H_def Unix_def zdiv_mono1)

theorem health_ok_witness:
  "status (health ex_now) = 200
   \<and> doc_member (content (health ex_now)) ''status'' = Some (DString ''ok'')
   \<and> doc_member (content (health ex_now)) ''timestamp'' = Some (DInt 1700000000)
   \<and> Unix 1999999999 \<le> Unix 2000000000
   \<and> Unix 1000000000 < Unix 2000000000"
  using health_ok [of ex_now 1999999999 2000000000] health_ok [of ex_now 1000000000 2000000000]
  by (simp add: Unix_def ex_now_def)

section \<open>Validation and the upstream request\<close>

lemma Query_id:
  "GetQuery q ''id'' = Some idStr \<Longrightarrow> Query q ''id'' = idStr"
  by (simp add: Query_def)

lemma getSongURL_valid:
  assumes "GetQuery q ''id'' = Some idStr" and "decimal_int idStr = Some songID"
  shows "getSongURL config now http_Get q =
           ([upstreamURL config now q songID], relay (http_Get (upstreamURL config now q songID)))"
proof -
  from assms(2) have "idStr \<noteq> []" by (auto simp add: decimal_int_def)
  moreover from assms(2) have "Atoi idStr = Inr songID" by (rule Atoi_Some)
  ultimately show ?thesis
    using assms(1) by (simp add: getSongURL_def Query_id Let_def)
qed

lemma decimal_int_12: "decimal_int ''12'' = Some 12"
  by (simp add: decimal_int_def is_digit_def decimal_value_def digit_value_def)

lemma decimal_int_plus007: "decimal_int ''+007'' = Some 7"
  by (simp add: decimal_int_def is_digit_def decimal_value_def digit_value_def)

lemma decimal_int_12a: "decimal_int ''12a'' = None"
  by (simp add: decimal_int_def is_digit_def decimal_value_def digit_value_def)

text \<open>
  Claim C4. When the query has no \<^verbatim>\<open>id\<close>, or an empty one, \<^verbatim>\<open>getSongURL\<close> answers 400
  with code 400 and \<^verbatim>\<open>Missing required parameter: id\<close>; when \<^verbatim>\<open>id\<close> is not empty and is
  not the decimal notation of a 64-bit integer, it answers 400 with code 400 and
  \<^verbatim>\<open>Invalid song id format\<close>. In both cases no request is sent to the upstream service.
\<close>

theorem getSongURL_invalid_request:
  "(GetQuery q ''id'' = None \<or> GetQuery q ''id'' = Some [] \<longrightarrow>
      getSongURL config now http_Get q =
        ([], c_JSON 400 (Marshal_ErrorResponse
               \<lparr> ErrorResponse.Code = 400, Message = ''Missing required parameter: id'' \<rparr>)))
   \<and> (GetQuery q ''id'' = Some idStr \<and> idStr \<noteq> [] \<and> decimal_int idStr = None \<longrightarrow>
      getSongURL config now http_Get q =
        ([], c_JSON 400 (Marshal_ErrorResponse
               \<lparr> ErrorResponse.Code = 400, Message = ''Invalid song id format'' \<rparr>)))"
proof (intro conjI impI)
  assume "GetQuery q ''id'' = None \<or> GetQuery q ''id'' = Some []"
  then show "getSongURL config now http_Get q =
        ([], c_JSON 400 (Marshal_ErrorResponse
               \<lparr> ErrorResponse.Code = 400, Message = ''Missing required parameter: id'' \<rparr>))"
    by (auto simp add: getSongURL_def Query_def)
next
  assume a: "GetQuery q ''id'' = Some idStr \<and> idStr \<noteq> [] \<and> decimal_int idStr = None"
  then obtain e where "Atoi idStr = Inl e" using Atoi_None by blast
  with a show "getSongURL config now http_Get q =
        ([], c_JSON 400 (Marshal_ErrorResponse
               \<lparr> ErrorResponse.Code = 400, Message = ''Invalid song id format'' \<rparr>))"
    by (simp add: getSongURL_def Query_id)
qed

theorem getSongURL_invalid_request_witness:
  "getSongURL ex_config ex_now (replies 200 (Document ex_not_found)) [(''level'', [''hires''])] =
        ([], c_JSON 400 (Marshal_ErrorResponse
               \<lparr> ErrorResponse.Code = 400, Message = ''Missing required parameter: id'' \<rparr>))
   \<and> getSongURL ex_config ex_now (replies 200 (Document ex_not_found)) [(''id'', [''12a''])] =
        ([], c_JSON 400 (Marshal_ErrorResponse
               \<lparr> ErrorResponse.Code = 400, Message = ''Invalid song id format'' \<rparr>))"
  using getSongURL_invalid_request [where q = "[(''level'', [''hires''])]" and config = ex_config
          and now = ex_now and http_Get = "replies 200 (Document ex_not_found)"]
        getSongURL_invalid_request [where q = "[(''id'', [''12a''])]" and idStr = "''12a''"
          and config = ex_config and now = ex_now
          and http_Get = "replies 200 (Document ex_not_found)"]
  by (simp add: GetQuery_def decimal_int_12a)

text \<open>
  Claim C5. When \<^verbatim>\<open>id\<close> is the decimal notation of a 64-bit integer \<open>n\<close> (a leading plus
  sign and leading zeros included), exactly one request is sent upstream. Its URL is
  the configured base URL followed by \<^verbatim>\<open>/song/url/v1?\<close> and the form encoding,
  sorted by key, of exactly five parameters: \<^verbatim>\<open>id\<close>, \<^verbatim>\<open>level\<close>, \<^verbatim>\<open>timestamp\<close>,
  \<^verbatim>\<open>cookie\<close> and \<^verbatim>\<open>realIP\<close>. The \<^verbatim>\<open>id\<close> parameter is \<open>Itoa n\<close>: it depends on the
  number only, not on how the caller wrote it, it is written to the URL unescaped, and
  it reads back as \<open>n\<close>.
\<close>

theorem getSongURL_upstream_request:
  assumes "GetQuery q ''id'' = Some idStr" and "decimal_int idStr = Some n"
  shows "fst (getSongURL config now http_Get q) =
           [NeteaseMusicAPI config @ ''/song/url/v1?'' @
            Values_Encode
              [(''id'', [Itoa n]),
               (''level'', [DefaultQuery q ''level'' (Config.Level config)]),
               (''timestamp'', [FormatInt (quo (UnixNano now) 1000000)]),
               (''cookie'', [Cookie config]),
               (''realIP'', [DefaultQuery q ''realip'' (RealIP config)])]]
       \<and> fst (getSongURL config now http_Get q) =
           [NeteaseMusicAPI config @ ''/song/url/v1?'' @
            ''cookie='' @ QueryEscape (Cookie config) @
            ''&id='' @ Itoa n @
            ''&level='' @ QueryEscape (DefaultQuery q ''level'' (Config.Level config)) @
            ''&realIP='' @ QueryEscape (DefaultQuery q ''realip'' (RealIP config)) @
            ''&timestamp='' @ FormatInt (quo (UnixNano now) 1000000)]
       \<and> Atoi (Itoa n) = Inr n"
proof -
  from assms(2) have range: "- (2 ^ 63) \<le> n" "n \<le> 2 ^ 63 - 1"
    by (auto simp add: decimal_int_def Let_def split: prod.splits if_splits)
  have "Atoi (Itoa n) = Inr n"
    using decimal_int_Itoa [OF range] by (rule Atoi_Some)
  moreover have "fst (getSongURL config now http_Get q) = [upstreamURL config now q n]"
    using getSongURL_valid [OF assms] by simp
  ultimately show ?thesis
    by (simp add: upstreamURL_def Let_def Values_Encode_songParams songParams_eq [symmetric])
qed

theorem getSongURL_upstream_request_witness:
  "fst (getSongURL ex_config ex_now (replies 200 (Document ex_not_found)) [(''id'', [''+007''])]) =
     [''https://example.com/song/url/v1?cookie=MUSIC_U%3Dabc%3B+os%3Dpc&id=7&level=exhigh&realIP=116.25.146.177&timestamp=1700000000123'']
   \<and> Atoi (Itoa 7) = Inr 7"
proof -
  have id: "GetQuery [(''id'', [''+007''])] ''id'' = Some ''+007''"
    by (simp add: GetQuery_def)
  note request = getSongURL_upstream_request [OF id decimal_int_plus007, of ex_config ex_now
      "replies 200 (Document ex_not_found)"]
  from request [THEN conjunct2] show ?thesis
    by (simp add: GetQuery_def DefaultQuery_def ex_config_def ex_now_def
        quo_def UnixNano_def int64_def Itoa_def FormatInt_def formatBits.simps digit_char_def
        QueryEscape_def escape_byte_def shouldEscape_def is_alnum_def upperhex_def)
qed

text \<open>
  Claim C6. For a request with a valid \<^verbatim>\<open>id\<close>, the \<^verbatim>\<open>level\<close> parameter of the upstream
  request is the value of the caller's \<^verbatim>\<open>level\<close> parameter when the caller's query has
  one, and \<^verbatim>\<open>config.Level\<close> otherwise; the \<^verbatim>\<open>realIP\<close> parameter is the value of the
  caller's \<^verbatim>\<open>realip\<close> parameter when there is one, and \<^verbatim>\<open>config.RealIP\<close> otherwise. The
  values are taken as they are (an empty value included); in the URL they stand
  form-encoded, and unescaping gives them back unchanged.
\<close>

theorem getSongURL_optional_parameters:
  assumes "GetQuery q ''id'' = Some idStr" and "decimal_int idStr = Some n"
  shows "(let level = (case GetQuery q ''level'' of Some v \<Rightarrow> v | None \<Rightarrow> Config.Level config);
              realIP = (case GetQuery q ''realip'' of Some v \<Rightarrow> v | None \<Rightarrow> RealIP config);
              params = songParams config n level (quo (UnixNano now) 1000000) realIP
          in fst (getSongURL config now http_Get q) =
               [NeteaseMusicAPI config @ ''/song/url/v1?'' @ Values_Encode params]
           \<and> Values_Get params ''level'' = level
           \<and> Values_Get params ''realIP'' = realIP
           \<and> Values_Encode params =
               ''cookie='' @ QueryEscape (Cookie config) @ ''&id='' @ Itoa n @
               ''&level='' @ QueryEscape level @ ''&realIP='' @ QueryEscape realIP @
               ''&timestamp='' @ FormatInt (quo (UnixNano now) 1000000)
           \<and> QueryUnescape (QueryEscape level) = Some level
           \<and> QueryUnescape (QueryEscape realIP) = Some realIP)"
proof -
  let ?level = "case GetQuery q ''level'' of Some v \<Rightarrow> v | None \<Rightarrow> Config.Level config"
  let ?realIP = "case GetQuery q ''realip'' of Some v \<Rightarrow> v | None \<Rightarrow> RealIP config"
  let ?params = "songParams config n ?level (quo (UnixNano now) 1000000) ?realIP"
  have "fst (getSongURL config now http_Get q) = [upstreamURL config now q n]"
    using getSongURL_valid [OF assms] by simp
  then have url: "fst (getSongURL config now http_Get q) =
      [NeteaseMusicAPI config @ ''/song/url/v1?'' @ Values_Encode ?params]"
    by (simp add: upstreamURL_def Let_def DefaultQuery_def)
  have level: "Values_Get ?params ''level'' = ?level"
    by (simp add: songParams_eq Values_Get_def)
  have realIP: "Values_Get ?params ''realIP'' = ?realIP"
    by (simp add: songParams_eq Values_Get_def)
  show ?thesis
    unfolding Let_def
    using url level realIP Values_Encode_songParams [of config n ?level _ ?realIP]
      QueryUnescape_QueryEscape [of ?level] QueryUnescape_QueryEscape [of ?realIP]
    by blast
qed

text \<open>
  At a concrete request: \<^verbatim>\<open>level\<close> is given (with a space and an ampersand, which the
  encoding escapes) and \<^verbatim>\<open>realip\<close> is not.
\<close>

theorem getSongURL_optional_parameters_witness:
  "fst (getSongURL ex_config ex_now (replies 200 (Document ex_not_found))
          [(''id'', [''12'']), (''level'', [''hi res&x''])]) =
     [''https://example.com/song/url/v1?cookie=MUSIC_U%3Dabc%3B+os%3Dpc&id=12&level=hi+res%26x&realIP=116.25.146.177&timestamp=1700000000123'']
   \<and> Values_Get (songParams ex_config 12 ''hi res&x'' 1700000000123 ''116.25.146.177'') ''level''
       = ''hi res&x''
   \<and> Values_Get (songParams ex_config 12 ''hi res&x'' 1700000000123 ''116.25.146.177'') ''realIP''
       = ''116.25.146.177''
   \<and> QueryUnescape ''hi+res%26x'' = Some ''hi res&x''"
proof -
  have id: "GetQuery [(''id'', [''12'']), (''level'', [''hi res&x''])] ''id'' = Some ''12''"
    by (simp add: GetQuery_def)
  have ts: "quo (UnixNano ex_now) 1000000 = 1700000000123"
    by (simp add: quo_def UnixNano_def int64_def ex_now_def)
  have params: "songParams ex_config 12 ''hi res&x'' 1700000000123 ''116.25.146.177'' =
      [(''id'', [''12'']), (''level'', [''hi res&x'']), (''timestamp'', [''1700000000123'']),
       (''cookie'', [''MUSIC_U=abc; os=pc'']), (''realIP'', [''116.25.146.177''])]"
    by (simp add: songParams_eq ex_config_def Itoa_def FormatInt_def formatBits.simps digit_char_def)
  have enc: "Values_Encode
      [(''id'', [''12'']), (''level'', [''hi res&x'']), (''timestamp'', [''1700000000123'']),
       (''cookie'', [''MUSIC_U=abc; os=pc'']), (''realIP'', [''116.25.146.177''])] =
      ''cookie=MUSIC_U%3Dabc%3B+os%3Dpc&id=12&level=hi+res%26x&realIP=116.25.146.177&timestamp=1700000000123''"
    by (simp add: Values_Encode_def QueryEscape_def escape_byte_def shouldEscape_def
        is_alnum_def upperhex_def)
  have esc: "QueryEscape ''hi res&x'' = ''hi+res%26x''"
    by (simp add: QueryEscape_def escape_byte_def shouldEscape_def is_alnum_def upperhex_def)
  have cfg: "RealIP ex_config = ''116.25.146.177''"
    "NeteaseMusicAPI ex_config = ''https://example.com''"
    by (simp_all add: ex_config_def)
  note optional = getSongURL_optional_parameters [OF id decimal_int_12, of ex_config ex_now
      "replies 200 (Document ex_not_found)"]
  from optional show ?thesis
    by (simp add: Let_def GetQuery_def ts cfg params enc esc)
qed

section \<open>Relaying the upstream response\<close>

lemma ex_id_12: "GetQuery [(''id'', [''12''])] ''id'' = Some ''12''"
  by (simp add: GetQuery_def)

lemma ex_not_found_decodes:
  "Unmarshal (Document ex_not_found) = Inr \<lparr> SongURLResponse.Code = 404, Data = None \<rparr>"
  by (simp add: Unmarshal_def ex_not_found_def zero_SongURLResponse_def
      store_SongURLResponse_field_def lookup_field_def SongURLResponse_tags_def number_int64_def)

text \<open>
  Claim C1, as stated, fails. The upstream body
  \<^verbatim>\<open>{"code":200,"data":[{"id":5,"url":"http://m/5.mp3"}],"msg":"ok"}\<close> decodes with code
  200 and the caller gets HTTP 200, but not the body as received: the member \<^verbatim>\<open>msg\<close>,
  which the struct does not declare, is gone, and the entry, received with two members,
  is written with seventeen, the fifteen others at their zero values.
\<close>

theorem success_body_not_verbatim:
  "Unmarshal (Document ex_song) = Inr ex_song_decoded
   \<and> SongURLResponse.Code ex_song_decoded = 200
   \<and> snd (getSongURL ex_config ex_now (replies 200 (Document ex_song)) [(''id'', [''12''])]) =
       c_JSON 200
         (DObject
            [(''code'', DInt 200),
             (''data'', DArray
                [DObject
                   [(''id'', DInt 5), (''url'', DString ''http://m/5.mp3''), (''br'', DInt 0),
                    (''size'', DInt 0), (''md5'', DString []), (''code'', DInt 0),
                    (''expi'', DInt 0), (''type'', DString []), (''gain'', DFloat zero_float64),
                    (''peak'', DFloat zero_float64), (''fee'', DInt 0), (''uf'', DNull),
                    (''payed'', DInt 0), (''flag'', DInt 0), (''canExtend'', DBool False),
                    (''freeTrialInfo'', DNull), (''level'', DString [])]])])
   \<and> json_members ex_song = [''code'', ''data'', ''msg'']
   \<and> doc_members (content (snd (getSongURL ex_config ex_now (replies 200 (Document ex_song))
         [(''id'', [''12''])]))) = [''code'', ''data'']
   \<and> doc_members (content (snd (getSongURL ex_config ex_now (replies 200 (Document ex_song))
         [(''id'', [''12''])]))) \<noteq> json_members ex_song"
proof -
  have written: "snd (getSongURL ex_config ex_now (replies 200 (Document ex_song)) [(''id'', [''12''])]) =
      c_JSON 200 (Marshal_SongURLResponse ex_song_decoded)"
    using getSongURL_valid [OF ex_id_12 decimal_int_12, of ex_config ex_now
        "replies 200 (Document ex_song)"]
    by (simp add: relay_def replies_def ex_song_decodes) (simp add: ex_song_decoded_def)
  have decoded: "SongURLResponse.Code ex_song_decoded = 200"
    by (simp add: ex_song_decoded_def)
  have members: "json_members ex_song = [''code'', ''data'', ''msg'']"
    by (simp add: ex_song_def)
  show ?thesis
    by (simp add: written ex_song_written ex_song_decodes decoded members c_JSON_def)
qed

text \<open>
  Claim C1, amended. For every upstream body that decodes with code 200, \<^verbatim>\<open>getSongURL\<close>
  returns HTTP 200, and what it writes is determined by the received members that name
  a declared field, letter case ignored, as follows. The body is an object; the written
  object has exactly the members \<^verbatim>\<open>code\<close>, which is 200 and is what the received
  \<^verbatim>\<open>code\<close> members give, and \<^verbatim>\<open>data\<close>, which is what the received \<^verbatim>\<open>data\<close> members
  give (\<open>written_data\<close>): \<^verbatim>\<open>null\<close> when the body has no \<^verbatim>\<open>data\<close> or a \<^verbatim>\<open>null\<close> one, and,
  when the body names \<^verbatim>\<open>data\<close> once, by an array, an array with one entry per received
  element, in order. Such an entry has exactly the seventeen declared members in the
  order of the declaration. A member that the received element does not name is written
  with the zero value of its type; a member named once is written with the value
  received: an integer, a string, a boolean as it is, a number of a \<^verbatim>\<open>float64\<close> field as
  the double nearest to it, the value of an opaque field (\<^verbatim>\<open>uf\<close>, \<^verbatim>\<open>freeTrialInfo\<close>) with
  its numbers as doubles and the members of its objects sorted by key; \<^verbatim>\<open>null\<close> for a
  typed field leaves the zero value. Members that the structs do not declare are not
  written. When the body names \<^verbatim>\<open>data\<close> more than once, entry \<open>i\<close> of a later array
  starts from what the earlier array left at index \<open>i\<close> instead of the zero values.
\<close>

theorem getSongURL_success:
  assumes "GetQuery q ''id'' = Some idStr" and "decimal_int idStr = Some n"
    and "http_Get (upstreamURL config now q n) = GetResponse statusCode (ReadAll b)"
    and "Unmarshal b = Inr songResp"
    and "SongURLResponse.Code songResp = 200"
  shows "(\<exists>ms. b = Document (JObject ms)
            \<and> written_value KInt (named_values SongURLResponse_tags ''code'' ms) = DInt 200
            \<and> getSongURL config now http_Get q =
                ([upstreamURL config now q n],
                 c_JSON 200
                   (DObject
                      [(''code'', DInt 200),
                       (''data'', written_data (named_values SongURLResponse_tags ''data'' ms))])))
       \<and> written_data [] = DNull
       \<and> written_data [JNull] = DNull
       \<and> written_data [JArray js] = DArray (map expected_entry js)
       \<and> doc_members (expected_entry j) = SongData_tags
       \<and> (t \<in> set SongData_tags \<longrightarrow>
            doc_member (expected_entry j) t =
              Some (written_value (SongData_kind t) (named_values SongData_tags t (json_members_of j))))
       \<and> written_value k [] = zero_doc k
       \<and> written_value k [JNull] = (if k = KAny then DNull else zero_doc k)
       \<and> (integer_literal i \<longrightarrow> written_value KInt [JNumber i] = DInt (integer_value i))
       \<and> written_value KString [JString s] = DString s
       \<and> written_value KBool [JBool c] = DBool c
       \<and> written_value KFloat [JNumber x] = DFloat (Nearest x)
       \<and> written_value KAny [v] = opaque_doc v"
proof -
  from assms(4,5) obtain ms where b: "b = Document (JObject ms)"
    using Unmarshal_code_200_object by blast
  have marshal: "Marshal_SongURLResponse songResp =
      DObject [(''code'', written_value KInt (named_values SongURLResponse_tags ''code'' ms)),
               (''data'', written_data (named_values SongURLResponse_tags ''data'' ms))]"
    using assms(4) unfolding b by (rule Unmarshal_object_written)
  then have code: "written_value KInt (named_values SongURLResponse_tags ''code'' ms) = DInt 200"
    using assms(5) by (simp add: Marshal_SongURLResponse_def)
  have "getSongURL config now http_Get q =
      ([upstreamURL config now q n], c_JSON 200 (Marshal_SongURLResponse songResp))"
    using getSongURL_valid [OF assms(1,2), of config now http_Get] assms(3,4,5)
    by (simp add: relay_def)
  then have written: "getSongURL config now http_Get q =
      ([upstreamURL config now q n],
       c_JSON 200
         (DObject
            [(''code'', DInt 200),
             (''data'', written_data (named_values SongURLResponse_tags ''data'' ms))]))"
    by (simp only: marshal code)
  have first: "\<exists>ms. b = Document (JObject ms)
            \<and> written_value KInt (named_values SongURLResponse_tags ''code'' ms) = DInt 200
            \<and> getSongURL config now http_Get q =
                ([upstreamURL config now q n],
                 c_JSON 200
                   (DObject
                      [(''code'', DInt 200),
                       (''data'', written_data (named_values SongURLResponse_tags ''data'' ms))]))"
    using b code written by blast
  have members: "doc_members (expected_entry j) = SongData_tags"
    by (simp add: expected_entry_def o_def)
  have member: "t \<in> set SongData_tags \<longrightarrow>
      doc_member (expected_entry j) t =
        Some (written_value (SongData_kind t) (named_values SongData_tags t (json_members_of j)))"
    by (simp add: expected_entry_def map_of_map_restrict)
  have null: "written_value k [JNull] = (if k = KAny then DNull else zero_doc k)"
    by (cases k) (simp_all add: written_value_once)
  have once: "written_data [JArray js] = DArray (map expected_entry js)"
    by (rule written_data_once)
  have single: "written_value k [] = zero_doc k"
    "integer_literal i \<longrightarrow> written_value KInt [JNumber i] = DInt (integer_value i)"
    "written_value KString [JString s] = DString s"
    "written_value KBool [JBool c] = DBool c"
    "written_value KFloat [JNumber x] = DFloat (Nearest x)"
    "written_value KAny [v] = opaque_doc v"
    by (simp_all add: written_value_Nil written_value_once)
  from first once members member null single written_data_Nil written_data_null
  show ?thesis
    by blast
qed

text \<open>
  At three bodies: the one above, whose entry is written with the two values received
  and fifteen zero values; \<^verbatim>\<open>{"code":200}\<close>, for which \<^verbatim>\<open>data\<close> is written as \<^verbatim>\<open>null\<close>; and
  \<^verbatim>\<open>{"code":200,"data":[{"id":1}],"data":[{"url":"u"}]}\<close>, whose one entry is written
  with the \<^verbatim>\<open>url\<close> of the second array and the \<^verbatim>\<open>id\<close> that the first one left.
\<close>

theorem getSongURL_success_witness:
  "getSongURL ex_config ex_now (replies 200 (Document ex_song)) [(''id'', [''12''])] =
     ([upstreamURL ex_config ex_now [(''id'', [''12''])] 12],
      c_JSON 200
        (DObject
           [(''code'', DInt 200),
            (''data'', DArray
               [DObject
                  [(''id'', DInt 5), (''url'', DString ''http://m/5.mp3''), (''br'', DInt 0),
                   (''size'', DInt 0), (''md5'', DString []), (''code'', DInt 0),
                   (''expi'', DInt 0), (''type'', DString []), (''gain'', DFloat zero_float64),
                   (''peak'', DFloat zero_float64), (''fee'', DInt 0), (''uf'', DNull),
                   (''payed'', DInt 0), (''flag'', DInt 0), (''canExtend'', DBool False),
                   (''freeTrialInfo'', DNull), (''level'', DString [])]])]))
   \<and> getSongURL ex_config ex_now (replies 200 (Document ex_no_data)) [(''id'', [''12''])] =
     ([upstreamURL ex_config ex_now [(''id'', [''12''])] 12],
      c_JSON 200 (DObject [(''code'', DInt 200), (''data'', DNull)]))
   \<and> getSongURL ex_config ex_now (replies 200 (Document ex_repeated_data)) [(''id'', [''12''])] =
     ([upstreamURL ex_config ex_now [(''id'', [''12''])] 12],
      c_JSON 200
        (DObject
           [(''code'', DInt 200),
            (''data'', DArray
               [DObject
                  [(''id'', DInt 1), (''url'', DString ''u''), (''br'', DInt 0),
                   (''size'', DInt 0), (''md5'', DString []), (''code'', DInt 0),
                   (''expi'', DInt 0), (''type'', DString []), (''gain'', DFloat zero_float64),
                   (''peak'', DFloat zero_float64), (''fee'', DInt 0), (''uf'', DNull),
                   (''payed'', DInt 0), (''flag'', DInt 0), (''canExtend'', DBool False),
                   (''freeTrialInfo'', DNull), (''level'', DString [])]])]))
   \<and> doc_member (expected_entry (JObject [(''id'', JNumber (Number False 5 [] None)),
                                               (''url'', JString ''http://m/5.mp3'')])) ''id'' =
       Some (DInt 5)
   \<and> written_value KInt [JNumber (Number False 5 [] None)] = DInt 5"
proof -
  have get: "\<And>b. replies 200 b (upstreamURL ex_config ex_now [(''id'', [''12''])] 12) =
      GetResponse 200 (ReadAll b)"
    by (simp add: replies_def)
  have code: "SongURLResponse.Code ex_song_decoded = 200"
    by (simp add: ex_song_decoded_def)
  note at_song = getSongURL_success [where http_Get = "replies 200 (Document ex_song)"
      and config = ex_config and now = ex_now and t = "''id''"
      and j = "JObject [(''id'', JNumber (Number False 5 [] None)),
                        (''url'', JString ''http://m/5.mp3'')]"
      and i = "Number False 5 [] None",
      OF ex_id_12 decimal_int_12 get ex_song_decodes code]
  have "''id'' \<in> set SongData_tags"
    by (simp add: SongData_tags_def)
  with at_song have "doc_member (expected_entry (JObject [(''id'', JNumber (Number False 5 [] None)),
                                               (''url'', JString ''http://m/5.mp3'')])) ''id'' =
      Some (written_value (SongData_kind ''id'')
              (named_values SongData_tags ''id''
                 (json_members_of (JObject [(''id'', JNumber (Number False 5 [] None)),
                                            (''url'', JString ''http://m/5.mp3'')]))))"
    by blast
  also have "\<dots> = Some (DInt 5)"
    by code_simp
  finally have member: "doc_member (expected_entry (JObject [(''id'', JNumber (Number False 5 [] None)),
                                               (''url'', JString ''http://m/5.mp3'')])) ''id'' =
      Some (DInt 5)" .
  have "integer_literal (Number False 5 [] None)"
    by (simp add: integer_literal_def)
  with at_song have "written_value KInt [JNumber (Number False 5 [] None)] =
      DInt (integer_value (Number False 5 [] None))"
    by blast
  then have five: "written_value KInt [JNumber (Number False 5 [] None)] = DInt 5"
    by (simp add: integer_value_def)
  from at_song
  obtain ms where "Document ex_song = Document (JObject ms)"
    and "getSongURL ex_config ex_now (replies 200 (Document ex_song)) [(''id'', [''12''])] =
      ([upstreamURL ex_config ex_now [(''id'', [''12''])] 12],
       c_JSON 200
         (DObject
            [(''code'', DInt 200),
             (''data'', written_data (named_values SongURLResponse_tags ''data'' ms))]))"
    by blast
  then have song: "getSongURL ex_config ex_now (replies 200 (Document ex_song)) [(''id'', [''12''])] =
      ([upstreamURL ex_config ex_now [(''id'', [''12''])] 12],
       c_JSON 200
         (DObject
            [(''code'', DInt 200),
             (''data'', written_data (named_values SongURLResponse_tags ''data''
                (json_members_of ex_song)))]))"
    by (simp add: ex_song_def)
  have code': "SongURLResponse.Code \<lparr> SongURLResponse.Code = 200, Data = None \<rparr> = 200"
    by simp
  from getSongURL_success [where http_Get = "replies 200 (Document ex_no_data)"
      and config = ex_config and now = ex_now, OF ex_id_12 decimal_int_12 get ex_no_data_decodes code']
  obtain ms where "Document ex_no_data = Document (JObject ms)"
    and "getSongURL ex_config ex_now (replies 200 (Document ex_no_data)) [(''id'', [''12''])] =
      ([upstreamURL ex_config ex_now [(''id'', [''12''])] 12],
       c_JSON 200
         (DObject
            [(''code'', DInt 200),
             (''data'', written_data (named_values SongURLResponse_tags ''data'' ms))]))"
    by blast
  then have no_data: "getSongURL ex_config ex_now (replies 200 (Document ex_no_data)) [(''id'', [''12''])] =
      ([upstreamURL ex_config ex_now [(''id'', [''12''])] 12],
       c_JSON 200
         (DObject
            [(''code'', DInt 200),
             (''data'', written_data (named_values SongURLResponse_tags ''data''
                (json_members_of ex_no_data)))]))"
    by (simp add: ex_no_data_def)
  have code'': "SongURLResponse.Code
      \<lparr> SongURLResponse.Code = 200, Data = Some [zero_SongData \<lparr> ID := 1, URL := ''u'' \<rparr>] \<rparr> = 200"
    by simp
  from getSongURL_success [where http_Get = "replies 200 (Document ex_repeated_data)"
      and config = ex_config and now = ex_now,
      OF ex_id_12 decimal_int_12 get ex_repeated_data_decodes code'']
  obtain ms where "Document ex_repeated_data = Document (JObject ms)"
    and "getSongURL ex_config ex_now (replies 200 (Document ex_repeated_data)) [(''id'', [''12''])] =
      ([upstreamURL ex_config ex_now [(''id'', [''12''])] 12],
       c_JSON 200
         (DObject
            [(''code'', DInt 200),
             (''data'', written_data (named_values SongURLResponse_tags ''data'' ms))]))"
    by blast
  then have repeated: "getSongURL ex_config ex_now (replies 200 (Document ex_repeated_data))
        [(''id'', [''12''])] =
      ([upstreamURL ex_config ex_now [(''id'', [''12''])] 12],
       c_JSON 200
         (DObject
            [(''code'', DInt 200),
             (''data'', written_data (named_values SongURLResponse_tags ''data''
                (json_members_of ex_repeated_data)))]))"
    by (simp add: ex_repeated_data_def)
  show ?thesis
    by (simp only: song no_data repeated ex_song_data ex_no_data_data ex_repeated_data_data
        member five simp_thms)
qed

text \<open>
  Claim C2, as stated, fails. The specification gives the upstream result the shape of
  an object with an integer status code and a sequence of entries. The body \<^verbatim>\<open>{}\<close> and
  the body \<^verbatim>\<open>null\<close> are valid JSON without that shape, and neither is answered with 500:
  both decode, to the zero value of \<^verbatim>\<open>SongURLResponse\<close>, and are answered 400 with code
  0 and \<^verbatim>\<open>Music service returned error\<close>.
\<close>

theorem shape_mismatch_is_decoded:
  "\<not> spec_shape (JObject [])
   \<and> \<not> spec_shape JNull
   \<and> getSongURL ex_config ex_now (replies 200 (Document (JObject []))) [(''id'', [''12''])] =
       ([upstreamURL ex_config ex_now [(''id'', [''12''])] 12],
        c_JSON 400 (DObject [(''code'', DInt 0),
                             (''message'', DString ''Music service returned error'')]))
   \<and> getSongURL ex_config ex_now (replies 200 (Document JNull)) [(''id'', [''12''])] =
       ([upstreamURL ex_config ex_now [(''id'', [''12''])] 12],
        c_JSON 400 (DObject [(''code'', DInt 0),
                             (''message'', DString ''Music service returned error'')]))
   \<and> status (snd (getSongURL ex_config ex_now (replies 200 (Document (JObject [])))
         [(''id'', [''12''])])) \<noteq> 500
   \<and> status (snd (getSongURL ex_config ex_now (replies 200 (Document JNull))
         [(''id'', [''12''])])) \<noteq> 500"
proof -
  have "\<And>b. getSongURL ex_config ex_now (replies 200 b) [(''id'', [''12''])] =
      ([upstreamURL ex_config ex_now [(''id'', [''12''])] 12], relay (GetResponse 200 (ReadAll b)))"
    using getSongURL_valid [OF ex_id_12 decimal_int_12, of ex_config ex_now]
    by (simp add: replies_def)
  then show ?thesis
    by (simp add: relay_def Unmarshal_def zero_SongURLResponse_def Marshal_ErrorResponse_def
        c_JSON_def)
qed

text \<open>
  Claim C2, amended. \<^verbatim>\<open>getSongURL\<close> answers 500 with code 500 and
  \<^verbatim>\<open>Failed to parse response from music service\<close> exactly when the body of the upstream
  response is not valid JSON or is JSON that does not conform to the declared types of
  \<^verbatim>\<open>SongURLResponse\<close> (\<open>conforms_SongURLResponse\<close>): the value is neither an object nor
  \<^verbatim>\<open>null\<close>, or a member that names a declared field, letter case ignored, has a value
  that the field's type does not take: for \<^verbatim>\<open>code\<close> and the other integer fields a value
  that is neither \<^verbatim>\<open>null\<close> nor an integer literal within 64 bits, for \<^verbatim>\<open>data\<close> a value
  that is neither \<^verbatim>\<open>null\<close> nor an array whose elements are \<^verbatim>\<open>null\<close> or objects that conform
  in the same way. No member is required and members that name no declared field are
  not looked at, so a body that lacks \<^verbatim>\<open>code\<close> or \<^verbatim>\<open>data\<close> is not answered with 500.
\<close>

theorem getSongURL_decode_failure:
  assumes "GetQuery q ''id'' = Some idStr" and "decimal_int idStr = Some n"
    and "http_Get (upstreamURL config now q n) = GetResponse statusCode (ReadAll b)"
  shows "getSongURL config now http_Get q =
           ([upstreamURL config now q n],
            c_JSON 500 (Marshal_ErrorResponse
              \<lparr> ErrorResponse.Code = 500,
                Message = ''Failed to parse response from music service'' \<rparr>))
         \<longleftrightarrow> b = Malformed \<or> (\<exists>j. b = Document j \<and> \<not> conforms_SongURLResponse j)"
proof -
  have valid: "getSongURL config now http_Get q =
      ([upstreamURL config now q n], relay (GetResponse statusCode (ReadAll b)))"
    using getSongURL_valid [OF assms(1,2), of config now http_Get] assms(3) by simp
  show ?thesis
  proof (cases "Unmarshal b")
    case (Inl err)
    then have "b = Malformed \<or> (\<exists>j. b = Document j \<and> \<not> conforms_SongURLResponse j)"
      using Unmarshal_error_iff [of b] by blast
    with Inl show ?thesis by (simp add: valid relay_def)
  next
    case (Inr r)
    then have "\<not> (b = Malformed \<or> (\<exists>j. b = Document j \<and> \<not> conforms_SongURLResponse j))"
      using Unmarshal_error_iff [of b] by auto
    with Inr show ?thesis
      by (simp add: valid relay_def c_JSON_def)
  qed
qed

text \<open>
  At three bodies: one that is not JSON and \<^verbatim>\<open>{"code":"200"}\<close>, whose code is a string,
  are answered with 500; \<^verbatim>\<open>{"code":200}\<close>, which conforms, is not.
\<close>

theorem getSongURL_decode_failure_witness:
  "getSongURL ex_config ex_now (replies 200 Malformed) [(''id'', [''12''])] =
     ([upstreamURL ex_config ex_now [(''id'', [''12''])] 12],
      c_JSON 500 (Marshal_ErrorResponse
        \<lparr> ErrorResponse.Code = 500, Message = ''Failed to parse response from music service'' \<rparr>))
   \<and> getSongURL ex_config ex_now (replies 200 (Document ex_code_as_string)) [(''id'', [''12''])] =
     ([upstreamURL ex_config ex_now [(''id'', [''12''])] 12],
      c_JSON 500 (Marshal_ErrorResponse
        \<lparr> ErrorResponse.Code = 500, Message = ''Failed to parse response from music service'' \<rparr>))
   \<and> getSongURL ex_config ex_now (replies 200 (Document ex_no_data)) [(''id'', [''12''])] \<noteq>
     ([upstreamURL ex_config ex_now [(''id'', [''12''])] 12],
      c_JSON 500 (Marshal_ErrorResponse
        \<lparr> ErrorResponse.Code = 500, Message = ''Failed to parse response from music service'' \<rparr>))"
proof -
  have get: "\<And>b. replies 200 b (upstreamURL ex_config ex_now [(''id'', [''12''])] 12) =
      GetResponse 200 (ReadAll b)"
    by (simp add: replies_def)
  have conforms: "conforms_SongURLResponse ex_no_data"
    by code_simp
  from getSongURL_decode_failure [where http_Get = "replies 200 Malformed"
         and config = ex_config and now = ex_now, OF ex_id_12 decimal_int_12 get]
       getSongURL_decode_failure [where http_Get = "replies 200 (Document ex_code_as_string)"
         and config = ex_config and now = ex_now, OF ex_id_12 decimal_int_12 get]
       getSongURL_decode_failure [where http_Get = "replies 200 (Document ex_no_data)"
         and config = ex_config and now = ex_now, OF ex_id_12 decimal_int_12 get]
  show ?thesis
    using ex_code_as_string_mismatch conforms by simp
qed

text \<open>
  Claim C3. When the body of the upstream response decodes and its code is not 200,
  \<^verbatim>\<open>getSongURL\<close> answers 400 with the upstream's code and
  \<^verbatim>\<open>Music service returned error\<close>; so an upstream code 404 gives HTTP 400 with code 404.
\<close>

theorem getSongURL_upstream_rejected:
  assumes "GetQuery q ''id'' = Some idStr" and "decimal_int idStr = Some n"
    and "http_Get (upstreamURL config now q n) = GetResponse statusCode (ReadAll b)"
    and "Unmarshal b = Inr songResp"
    and "SongURLResponse.Code songResp \<noteq> 200"
  shows "getSongURL config now http_Get q =
           ([upstreamURL config now q n],
            c_JSON 400
              (DObject [(''code'', DInt (SongURLResponse.Code songResp)),
                        (''message'', DString ''Music service returned error'')]))"
  using getSongURL_valid [OF assms(1,2), of config now http_Get] assms(3,4,5)
  by (simp add: relay_def Marshal_ErrorResponse_def)

theorem getSongURL_upstream_rejected_witness:
  "snd (getSongURL ex_config ex_now (replies 200 (Document ex_not_found)) [(''id'', [''12''])]) =
     c_JSON 400 (DObject [(''code'', DInt 404),
                          (''message'', DString ''Music service returned error'')])"
proof -
  have get: "replies 200 (Document ex_not_found) (upstreamURL ex_config ex_now [(''id'', [''12''])] 12) =
      GetResponse 200 (ReadAll (Document ex_not_found))"
    by (simp add: replies_def)
  have code: "SongURLResponse.Code \<lparr> SongURLResponse.Code = 404, Data = None \<rparr> \<noteq> 200"
    by simp
  from getSongURL_upstream_rejected [where http_Get = "replies 200 (Document ex_not_found)"
         and config = ex_config and now = ex_now,
         OF ex_id_12 decimal_int_12 get ex_not_found_decodes code]
  show ?thesis by simp
qed

text \<open>
  Claim C10. The status code of the upstream response is never inspected: what
  \<^verbatim>\<open>getSongURL\<close> does is the same whatever status code the upstream responses carry.
  In particular an upstream response with status 500 whose body decodes with code 200
  is relayed as HTTP 200 with the decoded body.
\<close>

theorem upstream_status_ignored:
  "relay (GetResponse s read) = relay (GetResponse s' read)
   \<and> getSongURL config now (with_status s http_Get) q = getSongURL config now http_Get q
   \<and> (GetQuery q ''id'' = Some idStr \<and> decimal_int idStr = Some n \<and>
      http_Get (upstreamURL config now q n) = GetResponse 500 (ReadAll b) \<and>
      Unmarshal b = Inr songResp \<and> SongURLResponse.Code songResp = 200 \<longrightarrow>
      snd (getSongURL config now http_Get q) = c_JSON 200 (Marshal_SongURLResponse songResp))"
proof (intro conjI impI)
  show "relay (GetResponse s read) = relay (GetResponse s' read)"
    by (simp add: relay_def)
  show "getSongURL config now (with_status s http_Get) q = getSongURL config now http_Get q"
    by (auto simp add: getSongURL_def relay_def with_status_def Let_def
        split: sum.splits get_result.splits)
  assume a: "GetQuery q ''id'' = Some idStr \<and> decimal_int idStr = Some n \<and>
      http_Get (upstreamURL config now q n) = GetResponse 500 (ReadAll b) \<and>
      Unmarshal b = Inr songResp \<and> SongURLResponse.Code songResp = 200"
  then have "getSongURL config now http_Get q =
      ([upstreamURL config now q n], relay (http_Get (upstreamURL config now q n)))"
    using getSongURL_valid [of q idStr n config now http_Get] by simp
  with a show "snd (getSongURL config now http_Get q) = c_JSON 200 (Marshal_SongURLResponse songResp)"
    by (simp add: relay_def)
qed

theorem upstream_status_ignored_witness:
  "getSongURL ex_config ex_now (with_status 200 (replies 500 (Document ex_song))) [(''id'', [''12''])] =
     getSongURL ex_config ex_now (replies 500 (Document ex_song)) [(''id'', [''12''])]
   \<and> snd (getSongURL ex_config ex_now (replies 500 (Document ex_song)) [(''id'', [''12''])]) =
       c_JSON 200 (Marshal_SongURLResponse ex_song_decoded)
   \<and> status (snd (getSongURL ex_config ex_now (replies 500 (Document ex_song)) [(''id'', [''12''])])) = 200"
proof -
  note ignored = upstream_status_ignored [where s = 200 and http_Get = "replies 500 (Document ex_song)"
      and q = "[(''id'', [''12''])]" and idStr = "''12''" and n = 12 and config = ex_config
      and now = ex_now and b = "Document ex_song" and songResp = ex_song_decoded]
  have code: "SongURLResponse.Code ex_song_decoded = 200"
    by (simp add: ex_song_decoded_def)
  from ignored show ?thesis
    by (simp add: ex_id_12 decimal_int_12 replies_def ex_song_decodes code c_JSON_def)
qed

end
